theory Spec2Isabelle
  imports Main "HOL-Library.AList"
begin

section \<open>The query store of \<^verbatim>\<open>src/queries/store.ts\<close>\<close>

text \<open>
  \<^verbatim>\<open>QueryStore\<close> keeps one \<^verbatim>\<open>QueryStoreValue\<close> per query id in \<^verbatim>\<open>this.store\<close>, a plain
  object created by \<^verbatim>\<open>{}\<close>. A read \<^verbatim>\<open>this.store[k]\<close> finds the object's own property
  \<open>k\<close> and, when there is none, the property \<open>k\<close> of \<^verbatim>\<open>Object.prototype\<close>. The model
  therefore has two parts: the own properties, an association list from ids to records,
  and the properties that the methods themselves have added to \<^verbatim>\<open>Object.prototype\<close> (they
  can, by an assignment through the inherited accessor \<^verbatim>\<open>__proto__\<close>), next to the
  properties \<^verbatim>\<open>Object.prototype\<close> has from the start.

  On the own properties \<^verbatim>\<open>this.store[k] = v\<close> is \<open>AList.update\<close>,
  \<^verbatim>\<open>delete this.store[k]\<close> is \<open>AList.delete\<close>, an assignment to a field of a stored record
  is \<open>AList.map_entry\<close>, and \<^verbatim>\<open>Object.keys(this.store)\<close> is \<open>map fst\<close>. The list keeps the
  keys in the order of their creation; JavaScript lists integer-like keys first, and no
  method depends on the order.

  The methods mutate the store in place and some of their statements can throw. A method is
  therefore a function from the store to either the store it leaves behind on a normal
  return (\<open>Inr\<close>), or the exception together with the store as it is when the exception
  leaves the method (\<open>Inl\<close>).
\<close>

subsection \<open>Data\<close>

text \<open>
  Modelled from the spec: the enum \<^verbatim>\<open>NetworkStatus\<close> of \<^verbatim>\<open>src/queries/networkStatus.ts\<close>,
  which is not among the sources. The spec lists its seven values.
\<close>

datatype NetworkStatus = loading | setVariables | fetchMore | refetch | poll | ready | error

text \<open>
  \<^verbatim>\<open>QueryStoreValue\<close>. The types of the document, the variables, the network error, the
  GraphQL errors and the metadata are opaque to the store and are type parameters.
\<close>

record ('doc, 'vars, 'err, 'gerr, 'meta) QueryStoreValue =
  queryString :: string
  document :: 'doc
  variables :: 'vars
  previousVariables :: "'vars option"
  networkStatus :: NetworkStatus
  networkError :: "'err option"
  graphQLErrors :: "'gerr list"
  metadata :: 'meta

text \<open>
  The values the methods can assign to a field: \<^verbatim>\<open>null\<close>, a network status (a primitive
  value), an \<^verbatim>\<open>Error\<close> object and an array of GraphQL errors. Assigned through
  \<^verbatim>\<open>__proto__\<close> they become properties of \<^verbatim>\<open>Object.prototype\<close>.
\<close>

datatype ('err, 'gerr) fieldValue =
    JNull
  | JStatus NetworkStatus
  | JError 'err
  | JArray "'gerr list"

text \<open>
  What a read \<^verbatim>\<open>this.store[k]\<close> can give: \<^verbatim>\<open>undefined\<close>, a record of the store, a
  built-in of \<^verbatim>\<open>Object.prototype\<close> (named by its property; \<open>Builtin ''__proto__''\<close> is
  \<^verbatim>\<open>Object.prototype\<close> itself), or a value added to \<^verbatim>\<open>Object.prototype\<close>.
\<close>

datatype ('doc, 'vars, 'err, 'gerr, 'meta) jsvalue =
    Undefined
  | Rec "('doc, 'vars, 'err, 'gerr, 'meta) QueryStoreValue"
  | Builtin string
  | Added "('err, 'gerr) fieldValue"

record ('doc, 'vars, 'err, 'gerr, 'meta) store =
  own :: "(string \<times> ('doc, 'vars, 'err, 'gerr, 'meta) QueryStoreValue) list"
  added :: "(string \<times> ('err, 'gerr) fieldValue) list"

definition emptyStore :: "('doc, 'vars, 'err, 'gerr, 'meta) store" where
  "emptyStore = \<lparr> own = [], added = [] \<rparr>"

text \<open>
  The property names of \<^verbatim>\<open>Object.prototype\<close> in ECMAScript (with its Annex B). All but
  \<^verbatim>\<open>__proto__\<close> are functions.
\<close>

definition objectPrototypeNames :: "string list" where
  "objectPrototypeNames =
     [''constructor'', ''hasOwnProperty'', ''isPrototypeOf'', ''propertyIsEnumerable'',
      ''toLocaleString'', ''toString'', ''valueOf'', ''__defineGetter__'',
      ''__defineSetter__'', ''__lookupGetter__'', ''__lookupSetter__'', ''__proto__'']"

text \<open>The names of the fields the methods assign after creation.\<close>

definition assignedFieldNames :: "string list" where
  "assignedFieldNames =
     [''networkStatus'', ''networkError'', ''graphQLErrors'', ''previousVariables'']"

text \<open>\<^verbatim>\<open>ExecutionResult\<close> of the graphql package: both fields are optional.\<close>

record ('data, 'gerr) ExecutionResult =
  data :: "'data option"
  errors :: "'gerr list option"

text \<open>
  The two exceptions: the \<^verbatim>\<open>Error\<close> that \<^verbatim>\<open>initQuery\<close> throws with its message, and the
  \<^verbatim>\<open>TypeError\<close> of the runtime when a property of \<^verbatim>\<open>undefined\<close>, of \<^verbatim>\<open>null\<close> or, the
  file being a module and so strict code, of a primitive value is assigned.
\<close>

datatype exn = Error string | TypeError

definition InternalError :: exn where
  "InternalError = Error ''Internal Error: may not update existing query string in store''"

type_synonym 's outcome = "exn \<times> 's + 's"

definition state_of :: "'s outcome \<Rightarrow> 's" where
  "state_of r = (case r of Inl (e, s) \<Rightarrow> s | Inr s \<Rightarrow> s)"

definition raises :: "exn \<Rightarrow> 's outcome \<Rightarrow> bool" where
  "raises e r = (case r of Inl (e', s) \<Rightarrow> e' = e | Inr s \<Rightarrow> False)"

definition returns :: "'s outcome \<Rightarrow> bool" where
  "returns r = (case r of Inl x \<Rightarrow> False | Inr s \<Rightarrow> True)"

text \<open>One statement after another: the second runs unless the first has thrown.\<close>

definition andThen :: "'s outcome \<Rightarrow> ('s \<Rightarrow> 's outcome) \<Rightarrow> 's outcome" where
  "andThen r f = (case r of Inl x \<Rightarrow> Inl x | Inr s \<Rightarrow> f s)"

subsection \<open>Reads and assignments\<close>

text \<open>The own property of the store under a key, if there is one.\<close>

definition ownRecord ::
  "string \<Rightarrow> ('doc, 'vars, 'err, 'gerr, 'meta) store
    \<Rightarrow> ('doc, 'vars, 'err, 'gerr, 'meta) QueryStoreValue option" where
  "ownRecord k st = map_of (own st) k"

text \<open>What the store inherits under a key from \<^verbatim>\<open>Object.prototype\<close>.\<close>

definition inherited ::
  "string \<Rightarrow> ('doc, 'vars, 'err, 'gerr, 'meta) store
    \<Rightarrow> ('doc, 'vars, 'err, 'gerr, 'meta) jsvalue" where
  "inherited k st =
     (if k \<in> set objectPrototypeNames then Builtin k
      else (case map_of (added st) k of None \<Rightarrow> Undefined | Some v \<Rightarrow> Added v))"

text \<open>\<^verbatim>\<open>this.store[k]\<close>.\<close>

definition lookup ::
  "string \<Rightarrow> ('doc, 'vars, 'err, 'gerr, 'meta) store
    \<Rightarrow> ('doc, 'vars, 'err, 'gerr, 'meta) jsvalue" where
  "lookup k st = (case ownRecord k st of Some r \<Rightarrow> Rec r | None \<Rightarrow> inherited k st)"

text \<open>
  Truthiness, as tested by \<^verbatim>\<open>previousQuery &&\<close> and \<^verbatim>\<open>!this.store[queryId]\<close>. Objects are
  truthy, \<^verbatim>\<open>undefined\<close> and \<^verbatim>\<open>null\<close> are not. Whether a network status is truthy depends
  on the values of the enum, which is not among the sources: it is the parameter
  \<open>statusTruthy\<close>.
\<close>

definition truthy ::
  "(NetworkStatus \<Rightarrow> bool) \<Rightarrow> ('doc, 'vars, 'err, 'gerr, 'meta) jsvalue \<Rightarrow> bool" where
  "truthy statusTruthy v =
     (case v of
        Undefined \<Rightarrow> False
      | Rec r \<Rightarrow> True
      | Builtin b \<Rightarrow> True
      | Added w \<Rightarrow>
          (case w of JNull \<Rightarrow> False | JStatus s \<Rightarrow> statusTruthy s
           | JError e \<Rightarrow> True | JArray es \<Rightarrow> True))"

text \<open>The values that are objects: a property can be assigned on them.\<close>

definition isObject :: "('doc, 'vars, 'err, 'gerr, 'meta) jsvalue \<Rightarrow> bool" where
  "isObject v =
     (case v of
        Undefined \<Rightarrow> False
      | Rec r \<Rightarrow> True
      | Builtin b \<Rightarrow> True
      | Added w \<Rightarrow>
          (case w of JNull \<Rightarrow> False | JStatus s \<Rightarrow> False
           | JError e \<Rightarrow> True | JArray es \<Rightarrow> True))"

text \<open>
  The read \<^verbatim>\<open>previousQuery.queryString\<close> of a truthy value: only a record has the
  property.
\<close>

definition queryStringOf :: "('doc, 'vars, 'err, 'gerr, 'meta) jsvalue \<Rightarrow> string option" where
  "queryStringOf v = (case v of Rec r \<Rightarrow> Some (queryString r) | _ \<Rightarrow> None)"

text \<open>
  \<^verbatim>\<open>this.store[key].field = value\<close>. \<open>f\<close> is the assignment as an update of a record,
  \<open>name\<close> and \<open>v\<close> are the field and the value. On \<^verbatim>\<open>undefined\<close>, \<^verbatim>\<open>null\<close> and a
  primitive value the assignment throws; on a record of the store it updates the record;
  through \<^verbatim>\<open>__proto__\<close> it sets the property on \<^verbatim>\<open>Object.prototype\<close>; on any other
  object (a built-in function, an \<^verbatim>\<open>Error\<close>, an array) the property lands on that object
  and the store does not change.
\<close>

definition assign ::
  "string \<Rightarrow> (('doc, 'vars, 'err, 'gerr, 'meta) QueryStoreValue
      \<Rightarrow> ('doc, 'vars, 'err, 'gerr, 'meta) QueryStoreValue)
    \<Rightarrow> string \<Rightarrow> ('err, 'gerr) fieldValue
    \<Rightarrow> ('doc, 'vars, 'err, 'gerr, 'meta) store
    \<Rightarrow> ('doc, 'vars, 'err, 'gerr, 'meta) store outcome" where
  "assign key f name v st =
     (case lookup key st of
        Undefined \<Rightarrow> Inl (TypeError, st)
      | Rec r \<Rightarrow> Inr (st\<lparr>own := AList.map_entry key f (own st)\<rparr>)
      | Builtin b \<Rightarrow>
          if b = ''__proto__'' then Inr (st\<lparr>added := AList.update name v (added st)\<rparr>)
          else Inr st
      | Added w \<Rightarrow>
          (case w of
             JNull \<Rightarrow> Inl (TypeError, st)
           | JStatus s \<Rightarrow> Inl (TypeError, st)
           | JError e \<Rightarrow> Inr st
           | JArray es \<Rightarrow> Inr st))"

definition setNetworkStatus ::
  "string \<Rightarrow> NetworkStatus \<Rightarrow> ('doc, 'vars, 'err, 'gerr, 'meta) store
    \<Rightarrow> ('doc, 'vars, 'err, 'gerr, 'meta) store outcome" where
  "setNetworkStatus key s st =
     assign key (\<lambda>r. r\<lparr>networkStatus := s\<rparr>) ''networkStatus'' (JStatus s) st"

definition setNetworkError ::
  "string \<Rightarrow> 'err option \<Rightarrow> ('doc, 'vars, 'err, 'gerr, 'meta) store
    \<Rightarrow> ('doc, 'vars, 'err, 'gerr, 'meta) store outcome" where
  "setNetworkError key e st =
     assign key (\<lambda>r. r\<lparr>networkError := e\<rparr>) ''networkError''
       (case e of None \<Rightarrow> JNull | Some x \<Rightarrow> JError x) st"

definition setGraphQLErrors ::
  "string \<Rightarrow> 'gerr list \<Rightarrow> ('doc, 'vars, 'err, 'gerr, 'meta) store
    \<Rightarrow> ('doc, 'vars, 'err, 'gerr, 'meta) store outcome" where
  "setGraphQLErrors key es st =
     assign key (\<lambda>r. r\<lparr>graphQLErrors := es\<rparr>) ''graphQLErrors'' (JArray es) st"

definition clearPreviousVariables ::
  "string \<Rightarrow> ('doc, 'vars, 'err, 'gerr, 'meta) store
    \<Rightarrow> ('doc, 'vars, 'err, 'gerr, 'meta) store outcome" where
  "clearPreviousVariables key st =
     assign key (\<lambda>r. r\<lparr>previousVariables := None\<rparr>) ''previousVariables'' JNull st"

subsection \<open>Operations\<close>

definition get ::
  "string \<Rightarrow> ('doc, 'vars, 'err, 'gerr, 'meta) store
    \<Rightarrow> ('doc, 'vars, 'err, 'gerr, 'meta) jsvalue" where
  "get queryId st = lookup queryId st"

text \<open>
  The status chosen by \<^verbatim>\<open>initQuery\<close> (the block marked "TODO break this out into a
  separate function"), with its repeated test of \<^verbatim>\<open>isPoll\<close>.
\<close>

definition newNetworkStatus :: "bool \<Rightarrow> bool \<Rightarrow> bool \<Rightarrow> NetworkStatus" where
  "newNetworkStatus isSetVariables isPoll isRefetch =
     (if isSetVariables then setVariables
      else if isPoll then poll
      else if isRefetch then refetch
      else if isPoll then poll
      else loading)"

text \<open>
  \<^verbatim>\<open>initQuery\<close>. \<^verbatim>\<open>isEqual\<close> of \<^verbatim>\<open>src/util/isEqual.ts\<close> is not among the sources and is a
  parameter. Past the first test \<^verbatim>\<open>previousQuery\<close> is falsy or a record with the given
  query string, so the fields \<^verbatim>\<open>networkStatus\<close> and \<^verbatim>\<open>variables\<close> are read of a record
  only.
\<close>

definition initQuery ::
  "(NetworkStatus \<Rightarrow> bool) \<Rightarrow> ('vars \<Rightarrow> 'vars \<Rightarrow> bool) \<Rightarrow> string \<Rightarrow> string \<Rightarrow> 'doc \<Rightarrow> bool
    \<Rightarrow> 'vars \<Rightarrow> bool \<Rightarrow> bool \<Rightarrow> 'meta \<Rightarrow> string option
    \<Rightarrow> ('doc, 'vars, 'err, 'gerr, 'meta) store
    \<Rightarrow> ('doc, 'vars, 'err, 'gerr, 'meta) store outcome" where
  "initQuery statusTruthy isEqual queryId queryString' document' storePreviousVariables
      variables' isPoll isRefetch metadata' fetchMoreForQueryId st =
     (let previousQuery = lookup queryId st in
      if truthy statusTruthy previousQuery
         \<and> queryStringOf previousQuery \<noteq> Some queryString'
      then Inl (InternalError, st)
      else
        let (isSetVariables, previousVariables') =
              (case previousQuery of
                 Rec p \<Rightarrow>
                   if storePreviousVariables \<and> networkStatus p \<noteq> loading
                   then (if \<not> isEqual (variables p) variables'
                         then (True, Some (variables p)) else (False, None))
                   else (False, None)
               | _ \<Rightarrow> (False, None));
            st1 = st\<lparr>own := AList.update queryId
                    \<lparr> queryString = queryString',
                      document = document',
                      variables = variables',
                      previousVariables = previousVariables',
                      networkStatus = newNetworkStatus isSetVariables isPoll isRefetch,
                      networkError = None,
                      graphQLErrors = [],
                      metadata = metadata' \<rparr> (own st)\<rparr>
        in case fetchMoreForQueryId of
             None \<Rightarrow> Inr st1
           | Some l \<Rightarrow> setNetworkStatus l fetchMore st1)"

text \<open>
  \<^verbatim>\<open>markQueryResult\<close>. \<^verbatim>\<open>graphQLResultHasError\<close> of \<^verbatim>\<open>src/data/storeUtils.ts\<close> is not
  among the sources and is a parameter.
\<close>

definition markQueryResult ::
  "(NetworkStatus \<Rightarrow> bool) \<Rightarrow> (('data, 'gerr) ExecutionResult \<Rightarrow> bool) \<Rightarrow> string
    \<Rightarrow> ('data, 'gerr) ExecutionResult \<Rightarrow> string option
    \<Rightarrow> ('doc, 'vars, 'err, 'gerr, 'meta) store
    \<Rightarrow> ('doc, 'vars, 'err, 'gerr, 'meta) store outcome" where
  "markQueryResult statusTruthy graphQLResultHasError queryId result fetchMoreForQueryId st =
     (if \<not> truthy statusTruthy (lookup queryId st) then Inr st
      else
        let resultHasGraphQLErrors = graphQLResultHasError result in
        andThen (setNetworkError queryId None st) (\<lambda>st1.
        andThen (setGraphQLErrors queryId
                   (if resultHasGraphQLErrors
                    then (case errors result of Some es \<Rightarrow> es | None \<Rightarrow> [])
                    else []) st1) (\<lambda>st2.
        andThen (clearPreviousVariables queryId st2) (\<lambda>st3.
        andThen (setNetworkStatus queryId ready st3) (\<lambda>st4.
        case fetchMoreForQueryId of
          None \<Rightarrow> Inr st4
        | Some l \<Rightarrow> setNetworkStatus l ready st4)))))"

definition markQueryError ::
  "(NetworkStatus \<Rightarrow> bool) \<Rightarrow> string \<Rightarrow> 'err \<Rightarrow> string option
    \<Rightarrow> ('doc, 'vars, 'err, 'gerr, 'meta) store
    \<Rightarrow> ('doc, 'vars, 'err, 'gerr, 'meta) store outcome" where
  "markQueryError statusTruthy queryId err fetchMoreForQueryId st =
     (if \<not> truthy statusTruthy (lookup queryId st) then Inr st
      else
        andThen (setNetworkError queryId (Some err) st) (\<lambda>st1.
        andThen (setNetworkStatus queryId error st1) (\<lambda>st2.
        case fetchMoreForQueryId of
          None \<Rightarrow> Inr st2
        | Some l \<Rightarrow>
            andThen (setNetworkError l (Some err) st2) (\<lambda>st3.
            setNetworkStatus l error st3))))"

definition markQueryResultClient ::
  "(NetworkStatus \<Rightarrow> bool) \<Rightarrow> string \<Rightarrow> bool
    \<Rightarrow> ('doc, 'vars, 'err, 'gerr, 'meta) store
    \<Rightarrow> ('doc, 'vars, 'err, 'gerr, 'meta) store outcome" where
  "markQueryResultClient statusTruthy queryId complete st =
     (if \<not> truthy statusTruthy (lookup queryId st) then Inr st
      else
        andThen (setNetworkError queryId None st) (\<lambda>st1.
        andThen (clearPreviousVariables queryId st1) (\<lambda>st2.
        setNetworkStatus queryId (if complete then ready else loading) st2)))"

text \<open>\<^verbatim>\<open>stopQuery\<close>: \<^verbatim>\<open>delete\<close> removes an own property and nothing else.\<close>

definition stopQuery ::
  "string \<Rightarrow> ('doc, 'vars, 'err, 'gerr, 'meta) store
    \<Rightarrow> ('doc, 'vars, 'err, 'gerr, 'meta) store outcome" where
  "stopQuery queryId st = Inr (st\<lparr>own := AList.delete queryId (own st)\<rparr>)"

text \<open>
  \<^verbatim>\<open>reset\<close>: the own keys of the store that occur in \<^verbatim>\<open>observableQueryIds\<close>
  (\<^verbatim>\<open>indexOf(queryId) > -1\<close>), and for each of them, in order, the assignment of
  \<^verbatim>\<open>loading\<close>. Each key is an own key, so the assignment finds its record.
\<close>

definition reset ::
  "string list \<Rightarrow> ('doc, 'vars, 'err, 'gerr, 'meta) store
    \<Rightarrow> ('doc, 'vars, 'err, 'gerr, 'meta) store outcome" where
  "reset observableQueryIds st =
     Inr (st\<lparr>own :=
            fold (\<lambda>key s. AList.map_entry key (\<lambda>r. r\<lparr>networkStatus := loading\<rparr>) s)
              (filter (\<lambda>queryId. queryId \<in> set observableQueryIds) (map fst (own st)))
              (own st)\<rparr>)"

subsection \<open>Sequences of calls\<close>

datatype ('doc, 'vars, 'err, 'gerr, 'meta, 'data) call =
    InitQuery string string 'doc bool 'vars bool bool 'meta "string option"
  | MarkQueryResult string "('data, 'gerr) ExecutionResult" "string option"
  | MarkQueryError string 'err "string option"
  | MarkQueryResultClient string bool
  | StopQuery string
  | Reset "string list"

fun step ::
  "(NetworkStatus \<Rightarrow> bool) \<Rightarrow> ('vars \<Rightarrow> 'vars \<Rightarrow> bool)
    \<Rightarrow> (('data, 'gerr) ExecutionResult \<Rightarrow> bool)
    \<Rightarrow> ('doc, 'vars, 'err, 'gerr, 'meta, 'data) call
    \<Rightarrow> ('doc, 'vars, 'err, 'gerr, 'meta) store
    \<Rightarrow> ('doc, 'vars, 'err, 'gerr, 'meta) store outcome" where
  "step T isEqual hasError (InitQuery i q d spv v isPoll isRefetch m fm) st =
     initQuery T isEqual i q d spv v isPoll isRefetch m fm st"
| "step T isEqual hasError (MarkQueryResult i res fm) st = markQueryResult T hasError i res fm st"
| "step T isEqual hasError (MarkQueryError i e fm) st = markQueryError T i e fm st"
| "step T isEqual hasError (MarkQueryResultClient i c) st = markQueryResultClient T i c st"
| "step T isEqual hasError (StopQuery i) st = stopQuery i st"
| "step T isEqual hasError (Reset ids) st = reset ids st"

text \<open>
  A sequence of calls on one store. A call that throws leaves the store as it was at the
  throw, and the next call runs on that store.
\<close>

fun run ::
  "(NetworkStatus \<Rightarrow> bool) \<Rightarrow> ('vars \<Rightarrow> 'vars \<Rightarrow> bool)
    \<Rightarrow> (('data, 'gerr) ExecutionResult \<Rightarrow> bool)
    \<Rightarrow> ('doc, 'vars, 'err, 'gerr, 'meta, 'data) call list
    \<Rightarrow> ('doc, 'vars, 'err, 'gerr, 'meta) store
    \<Rightarrow> ('doc, 'vars, 'err, 'gerr, 'meta) store" where
  "run T isEqual hasError [] st = st"
| "run T isEqual hasError (c # cs) st =
     run T isEqual hasError cs (state_of (step T isEqual hasError c st))"

subsection \<open>Predicates on calls\<close>

text \<open>\<open>linksTo k c\<close>: the call \<open>c\<close> is an \<^verbatim>\<open>initQuery\<close> whose \<^verbatim>\<open>fetchMoreForQueryId\<close> is \<open>k\<close>.\<close>

fun linksTo :: "string \<Rightarrow> ('doc, 'vars, 'err, 'gerr, 'meta, 'data) call \<Rightarrow> bool" where
  "linksTo k (InitQuery i q d spv v isPoll isRefetch m fm) = (fm = Some k)"
| "linksTo k (MarkQueryResult i res fm) = False"
| "linksTo k (MarkQueryError i e fm) = False"
| "linksTo k (MarkQueryResultClient i c) = False"
| "linksTo k (StopQuery i) = False"
| "linksTo k (Reset ids) = False"

text \<open>
  \<open>unlinked c\<close>: the call \<open>c\<close> is an \<^verbatim>\<open>initQuery\<close> or a \<^verbatim>\<open>markQueryResult\<close> without
  \<^verbatim>\<open>fetchMoreForQueryId\<close>, a \<^verbatim>\<open>markQueryResultClient\<close> or a \<^verbatim>\<open>stopQuery\<close>.
\<close>

fun unlinked :: "('doc, 'vars, 'err, 'gerr, 'meta, 'data) call \<Rightarrow> bool" where
  "unlinked (InitQuery i q d spv v isPoll isRefetch m fm) = (fm = None)"
| "unlinked (MarkQueryResult i res fm) = (fm = None)"
| "unlinked (MarkQueryError i e fm) = False"
| "unlinked (MarkQueryResultClient i c) = True"
| "unlinked (StopQuery i) = True"
| "unlinked (Reset ids) = False"

subsection \<open>Example data\<close>

text \<open>
  The examples take variables to be lists of name and value pairs, GraphQL and network
  errors to be strings, and leave document, metadata and result data trivial.
  \<open>isEqualEx\<close> is the instance of the parameter \<^verbatim>\<open>isEqual\<close> used there: two lists are
  equal when they hold the same pairs, in any order. \<open>hasErrorsEx\<close> is the instance
  of \<^verbatim>\<open>graphQLResultHasError\<close>: the result has a non-empty \<^verbatim>\<open>errors\<close>. \<open>allTruthy\<close> is the instance of
  \<open>statusTruthy\<close>: an enum none of whose values is zero. \<open>storeOf\<close> is a store with the
  given records and nothing added to \<^verbatim>\<open>Object.prototype\<close>.
\<close>

type_synonym exValue = "(unit, (string \<times> int) list, string, string, unit) QueryStoreValue"

type_synonym exStore = "(unit, (string \<times> int) list, string, string, unit) store"

type_synonym exCall = "(unit, (string \<times> int) list, string, string, unit, unit) call"

definition isEqualEx :: "(string \<times> int) list \<Rightarrow> (string \<times> int) list \<Rightarrow> bool" where
  "isEqualEx a b = (set a = set b)"

definition hasErrorsEx :: "(unit, string) ExecutionResult \<Rightarrow> bool" where
  "hasErrorsEx res = (case errors res of None \<Rightarrow> False | Some es \<Rightarrow> es \<noteq> [])"

definition allTruthy :: "NetworkStatus \<Rightarrow> bool" where
  "allTruthy s = True"

definition exValue :: "string \<Rightarrow> (string \<times> int) list \<Rightarrow> NetworkStatus \<Rightarrow> exValue" where
  "exValue q v s =
     \<lparr> queryString = q, document = (), variables = v, previousVariables = None,
       networkStatus = s, networkError = None, graphQLErrors = [], metadata = () \<rparr>"

definition exResult :: "string list option \<Rightarrow> (unit, string) ExecutionResult" where
  "exResult es = \<lparr> data = None, errors = es \<rparr>"

definition storeOf :: "(string \<times> exValue) list \<Rightarrow> exStore" where
  "storeOf records = \<lparr> own = records, added = [] \<rparr>"

section \<open>Outcomes\<close>

lemma InternalError_neq_TypeError [simp]: "InternalError \<noteq> TypeError" "TypeError \<noteq> InternalError"
  by (simp_all add: InternalError_def)

lemma state_of_Inr [simp]: "state_of (Inr s) = s"
  by (simp add: state_of_def)

lemma state_of_Inl [simp]: "state_of (Inl (e, s)) = s"
  by (simp add: state_of_def)

lemma raises_Inr [simp]: "raises e (Inr s) = False"
  by (simp add: raises_def)

lemma raises_Inl [simp]: "raises e (Inl (e', s)) = (e' = e)"
  by (simp add: raises_def)

lemma returns_Inr [simp]: "returns (Inr s) = True"
  by (simp add: returns_def)

lemma returns_Inl [simp]: "returns (Inl x) = False"
  by (simp add: returns_def)

lemma andThen_Inr [simp]: "andThen (Inr s) f = f s"
  by (simp add: andThen_def)

lemma andThen_Inl [simp]: "andThen (Inl x) f = Inl x"
  by (simp add: andThen_def)

lemma returns_eq: "returns r \<Longrightarrow> r = Inr (state_of r)"
  by (cases r) auto

lemma state_of_andThen:
  "state_of (andThen r f) = (if returns r then state_of (f (state_of r)) else state_of r)"
  by (cases r) auto

lemma returns_andThen: "returns (andThen r f) = (returns r \<and> returns (f (state_of r)))"
  by (cases r) auto

lemma raises_andThen:
  "raises e (andThen r f) = (raises e r \<or> (returns r \<and> raises e (f (state_of r))))"
  by (cases r) auto

section \<open>Reads\<close>

lemma inherited_not_Rec [simp]: "inherited k st \<noteq> Rec r"
  by (simp add: inherited_def split: option.split)

lemma lookup_Rec_iff: "(lookup k st = Rec r) = (ownRecord k st = Some r)"
  by (auto simp: lookup_def inherited_def split: option.splits)

lemma get_Rec_iff: "(get k st = Rec r) = (ownRecord k st = Some r)"
  by (simp add: get_def lookup_Rec_iff)

lemma lookup_tracked: "ownRecord k st = Some r \<Longrightarrow> lookup k st = Rec r"
  by (simp add: lookup_def)

lemma lookup_untracked: "ownRecord k st = None \<Longrightarrow> lookup k st = inherited k st"
  by (simp add: lookup_def)

lemma inherited_own_update [simp]: "inherited k (st\<lparr>own := X\<rparr>) = inherited k st"
  by (simp add: inherited_def)

lemma ownRecord_own_update: "ownRecord k (st\<lparr>own := X\<rparr>) = map_of X k"
  by (simp add: ownRecord_def)

lemma ownRecord_update [simp]:
  "ownRecord k (st\<lparr>own := AList.update i r (own st)\<rparr>) = (if k = i then Some r else ownRecord k st)"
  by (simp add: ownRecord_def update_conv')

lemma ownRecord_map_entry [simp]:
  "ownRecord k (st\<lparr>own := AList.map_entry i f (own st)\<rparr>) =
     (if k = i then map_option f (ownRecord i st) else ownRecord k st)"
  by (simp add: ownRecord_def map_of_map_entry split: option.split)

lemma ownRecord_delete [simp]:
  "ownRecord k (st\<lparr>own := AList.delete i (own st)\<rparr>) = (if k = i then None else ownRecord k st)"
  by (simp add: ownRecord_def delete_conv')

lemma ownRecord_added_update [simp]: "ownRecord k (st\<lparr>added := X\<rparr>) = ownRecord k st"
  by (simp add: ownRecord_def)

lemma map_of_map_entry_if:
  "map_of (AList.map_entry l f xs) k = (if k = l then map_option f (map_of xs l) else map_of xs k)"
  by (simp add: map_of_map_entry split: option.split)

lemma map_entry_untracked: "map_of xs k = None \<Longrightarrow> AList.map_entry k f xs = xs"
  by (induction xs) (auto split: if_splits)

lemma isObject_Rec [simp]: "isObject (Rec r)"
  by (simp add: isObject_def)

lemma isObject_Builtin [simp]: "isObject (Builtin b)"
  by (simp add: isObject_def)

lemma isObject_Undefined [simp]: "\<not> isObject Undefined"
  by (simp add: isObject_def)

lemma truthy_Rec [simp]: "truthy T (Rec r)"
  by (simp add: truthy_def)

lemma truthy_Builtin [simp]: "truthy T (Builtin b)"
  by (simp add: truthy_def)

lemma truthy_Undefined [simp]: "\<not> truthy T Undefined"
  by (simp add: truthy_def)

lemma queryStringOf_Rec [simp]: "queryStringOf (Rec r) = Some (queryString r)"
  by (simp add: queryStringOf_def)

lemma queryStringOf_not_Rec: "(\<And>r. v \<noteq> Rec r) \<Longrightarrow> queryStringOf v = None"
  by (cases v) (auto simp: queryStringOf_def)

section \<open>Assignments\<close>

lemma own_assign: "own (state_of (assign l f n v st)) = AList.map_entry l f (own st)"
proof (cases "ownRecord l st")
  case None
  then have "AList.map_entry l f (own st) = own st"
    by (simp add: ownRecord_def map_entry_untracked)
  moreover have "own (state_of (assign l f n v st)) = own st"
    using None
    by (auto simp: assign_def lookup_def split: jsvalue.splits fieldValue.splits)
  ultimately show ?thesis by simp
next
  case (Some r)
  then show ?thesis by (simp add: assign_def lookup_def)
qed

lemma ownRecord_assign:
  "ownRecord k (state_of (assign l f n v st)) =
     (if k = l then map_option f (ownRecord l st) else ownRecord k st)"
  by (simp add: ownRecord_def own_assign map_of_map_entry_if)

lemma assign_tracked:
  "ownRecord l st = Some r \<Longrightarrow>
     assign l f n v st = Inr (st\<lparr>own := AList.map_entry l f (own st)\<rparr>)"
  by (simp add: assign_def lookup_def)

lemma raises_assign: "raises e (assign l f n v st) = (e = TypeError \<and> \<not> isObject (lookup l st))"
  by (auto simp: assign_def isObject_def split: jsvalue.splits fieldValue.splits)

lemma returns_assign: "returns (assign l f n v st) = isObject (lookup l st)"
  by (auto simp: assign_def isObject_def split: jsvalue.splits fieldValue.splits)

lemma assign_not_object: "\<not> isObject (lookup l st) \<Longrightarrow> assign l f n v st = Inl (TypeError, st)"
  by (auto simp: assign_def isObject_def split: jsvalue.splits fieldValue.splits)

lemma added_keys_assign:
  "fst ` set (added (state_of (assign l f n v st))) \<subseteq> insert n (fst ` set (added st))"
  by (auto simp: assign_def dom_update split: jsvalue.splits fieldValue.splits)

lemma added_assign_tracked:
  "ownRecord l st = Some r \<Longrightarrow> added (state_of (assign l f n v st)) = added st"
  by (simp add: assign_tracked)

lemmas setters = setNetworkStatus_def setNetworkError_def setGraphQLErrors_def
  clearPreviousVariables_def

section \<open>initQuery\<close>

lemma newNetworkStatus_setVariables [simp]:
  "(newNetworkStatus a b c = setVariables) = a"
  by (simp add: newNetworkStatus_def)

lemma newNetworkStatus_not_fetchMore [simp]:
  "newNetworkStatus a b c \<noteq> fetchMore"
  by (simp add: newNetworkStatus_def)

lemma initQuery_raises_iff:
  "raises InternalError (initQuery T isEqual i q d spv v isPoll isRefetch m fm st)
     = (truthy T (lookup i st) \<and> queryStringOf (lookup i st) \<noteq> Some q)"
  by (auto simp: initQuery_def Let_def setters raises_assign
      split: option.splits prod.splits)

lemma initQuery_violation:
  "truthy T (lookup i st) \<Longrightarrow> queryStringOf (lookup i st) \<noteq> Some q \<Longrightarrow>
     initQuery T isEqual i q d spv v isPoll isRefetch m fm st = Inl (InternalError, st)"
  by (simp add: initQuery_def)

lemma initQuery_raises_tracked:
  "ownRecord i st = Some p \<Longrightarrow>
     raises InternalError (initQuery T isEqual i q d spv v isPoll isRefetch m fm st)
       = (queryString p \<noteq> q)"
  by (simp add: initQuery_raises_iff lookup_tracked)

lemma initQuery_normal:
  assumes "\<not> raises InternalError (initQuery T isEqual i q d spv v isPoll isRefetch m fm st)"
  shows "initQuery T isEqual i q d spv v isPoll isRefetch m fm st =
     (case fm of
        None \<Rightarrow> Inr (st\<lparr>own := AList.update i
          \<lparr> queryString = q, document = d, variables = v,
            previousVariables =
              (case ownRecord i st of None \<Rightarrow> None
               | Some p \<Rightarrow> if spv \<and> networkStatus p \<noteq> loading \<and> \<not> isEqual (variables p) v
                           then Some (variables p) else None),
            networkStatus = newNetworkStatus
              (case ownRecord i st of None \<Rightarrow> False
               | Some p \<Rightarrow> spv \<and> networkStatus p \<noteq> loading \<and> \<not> isEqual (variables p) v)
              isPoll isRefetch,
            networkError = None, graphQLErrors = [], metadata = m \<rparr> (own st)\<rparr>)
      | Some l \<Rightarrow> setNetworkStatus l fetchMore (st\<lparr>own := AList.update i
          \<lparr> queryString = q, document = d, variables = v,
            previousVariables =
              (case ownRecord i st of None \<Rightarrow> None
               | Some p \<Rightarrow> if spv \<and> networkStatus p \<noteq> loading \<and> \<not> isEqual (variables p) v
                           then Some (variables p) else None),
            networkStatus = newNetworkStatus
              (case ownRecord i st of None \<Rightarrow> False
               | Some p \<Rightarrow> spv \<and> networkStatus p \<noteq> loading \<and> \<not> isEqual (variables p) v)
              isPoll isRefetch,
            networkError = None, graphQLErrors = [], metadata = m \<rparr> (own st)\<rparr>))"
proof -
  have ok: "\<not> (truthy T (lookup i st) \<and> queryStringOf (lookup i st) \<noteq> Some q)"
    using assms by (simp add: initQuery_raises_iff)
  show ?thesis
  proof (cases "ownRecord i st")
    case None
    then have "\<And>r. lookup i st \<noteq> Rec r"
      by (simp add: lookup_Rec_iff)
    then show ?thesis using ok None
      by (cases "lookup i st") (auto simp: initQuery_def Let_def split: option.splits)
  next
    case (Some p)
    then have "lookup i st = Rec p"
      by (simp add: lookup_tracked)
    then show ?thesis using ok Some
      by (auto simp: initQuery_def Let_def split: option.splits)
  qed
qed

lemma initQuery_ownRecord_self:
  assumes "\<not> raises InternalError (initQuery T isEqual i q d spv v isPoll isRefetch m fm st)"
  shows "ownRecord i (state_of (initQuery T isEqual i q d spv v isPoll isRefetch m fm st)) =
     Some \<lparr> queryString = q, document = d, variables = v,
       previousVariables =
         (case ownRecord i st of None \<Rightarrow> None
          | Some p \<Rightarrow> if spv \<and> networkStatus p \<noteq> loading \<and> \<not> isEqual (variables p) v
                      then Some (variables p) else None),
       networkStatus =
         (if fm = Some i then fetchMore
          else newNetworkStatus
            (case ownRecord i st of None \<Rightarrow> False
             | Some p \<Rightarrow> spv \<and> networkStatus p \<noteq> loading \<and> \<not> isEqual (variables p) v)
            isPoll isRefetch),
       networkError = None, graphQLErrors = [], metadata = m \<rparr>"
  using initQuery_normal [OF assms]
  by (cases fm) (simp_all add: setNetworkStatus_def ownRecord_assign)

lemma initQuery_ownRecord_other:
  assumes "k \<noteq> i"
  shows "ownRecord k (state_of (initQuery T isEqual i q d spv v isPoll isRefetch m fm st)) =
     (if fm = Some k
         \<and> \<not> raises InternalError (initQuery T isEqual i q d spv v isPoll isRefetch m fm st)
      then map_option (\<lambda>r. r\<lparr>networkStatus := fetchMore\<rparr>) (ownRecord k st)
      else ownRecord k st)"
proof (cases "raises InternalError (initQuery T isEqual i q d spv v isPoll isRefetch m fm st)")
  case True
  then have "initQuery T isEqual i q d spv v isPoll isRefetch m fm st = Inl (InternalError, st)"
    by (simp add: initQuery_raises_iff initQuery_violation)
  then show ?thesis using True by simp
next
  case False
  show ?thesis using assms False initQuery_normal [OF False]
    by (cases fm)
       (auto simp: setNetworkStatus_def ownRecord_assign)
qed

lemma lookup_after_own_update:
  "l \<noteq> i \<Longrightarrow> lookup l (st\<lparr>own := AList.update i r (own st)\<rparr>) = lookup l st"
  by (simp add: lookup_def split: option.split)

lemma lookup_self_own_update:
  "lookup i (st\<lparr>own := AList.update i r (own st)\<rparr>) = Rec r"
  by (simp add: lookup_def)

lemma initQuery_raises_TypeError:
  "raises TypeError (initQuery T isEqual i q d spv v isPoll isRefetch m fm st) =
     (\<not> raises InternalError (initQuery T isEqual i q d spv v isPoll isRefetch m fm st)
      \<and> (\<exists>l. fm = Some l \<and> l \<noteq> i \<and> \<not> isObject (lookup l st)))"
proof (cases "raises InternalError (initQuery T isEqual i q d spv v isPoll isRefetch m fm st)")
  case True
  then have "initQuery T isEqual i q d spv v isPoll isRefetch m fm st = Inl (InternalError, st)"
    by (simp add: initQuery_raises_iff initQuery_violation)
  then show ?thesis using True by simp
next
  case False
  show ?thesis
  proof (cases fm)
    case None
    then show ?thesis using False initQuery_normal [OF False] by simp
  next
    case (Some l)
    then show ?thesis using False initQuery_normal [OF False]
      by (cases "l = i")
         (simp_all add: setNetworkStatus_def raises_assign
            lookup_after_own_update lookup_self_own_update)
  qed
qed

lemma initQuery_returns:
  "returns (initQuery T isEqual i q d spv v isPoll isRefetch m fm st) =
     (\<not> raises InternalError (initQuery T isEqual i q d spv v isPoll isRefetch m fm st)
      \<and> \<not> (\<exists>l. fm = Some l \<and> l \<noteq> i \<and> \<not> isObject (lookup l st)))"
proof (cases "raises InternalError (initQuery T isEqual i q d spv v isPoll isRefetch m fm st)")
  case True
  then have "initQuery T isEqual i q d spv v isPoll isRefetch m fm st = Inl (InternalError, st)"
    by (simp add: initQuery_raises_iff initQuery_violation)
  then show ?thesis using True by simp
next
  case False
  show ?thesis
  proof (cases fm)
    case None
    then show ?thesis using False initQuery_normal [OF False] by simp
  next
    case (Some l)
    then show ?thesis using False initQuery_normal [OF False]
      by (cases "l = i")
         (simp_all add: setNetworkStatus_def returns_assign
            lookup_after_own_update lookup_self_own_update)
  qed
qed

lemma initQuery_added_keys:
  "fst ` set (added (state_of (initQuery T isEqual i q d spv v isPoll isRefetch m fm st)))
     \<subseteq> insert ''networkStatus'' (fst ` set (added st))"
proof (cases "raises InternalError (initQuery T isEqual i q d spv v isPoll isRefetch m fm st)")
  case True
  then have "initQuery T isEqual i q d spv v isPoll isRefetch m fm st = Inl (InternalError, st)"
    by (simp add: initQuery_raises_iff initQuery_violation)
  then show ?thesis by auto
next
  case False
  show ?thesis
  proof (cases fm)
    case None
    then show ?thesis using initQuery_normal [OF False] by auto
  next
    case (Some l)
    have "fst ` set (added (state_of (setNetworkStatus l fetchMore (st\<lparr>own := X\<rparr>))))
        \<subseteq> insert ''networkStatus'' (fst ` set (added st))" for X
      using added_keys_assign [of l _ "''networkStatus''" _ "st\<lparr>own := X\<rparr>"]
      by (simp add: setNetworkStatus_def)
    then show ?thesis using Some initQuery_normal [OF False] by simp
  qed
qed

section \<open>Assignments to a tracked record\<close>

lemma map_entry_twice:
  "AList.map_entry k g (AList.map_entry k f xs) = AList.map_entry k (\<lambda>r. g (f r)) xs"
  by (induction xs) auto

lemma assign_tracked':
  "ownRecord l st \<noteq> None \<Longrightarrow>
     assign l f n v st = Inr (st\<lparr>own := AList.map_entry l f (own st)\<rparr>)"
  by (auto simp: assign_tracked)

lemma lookup_own_map_entry:
  "lookup l (st\<lparr>own := AList.map_entry i f (own st)\<rparr>) =
     (if l = i then (case ownRecord i st of Some r \<Rightarrow> Rec (f r) | None \<Rightarrow> inherited i st)
      else lookup l st)"
  by (simp add: lookup_def split: option.split)

lemma not_object_untracked: "\<not> isObject (lookup l s) \<Longrightarrow> ownRecord l s = None"
  by (cases "ownRecord l s") (auto simp: lookup_def)

lemma isObject_lookup_assign:
  "isObject (lookup l (state_of (assign l f n v s))) = isObject (lookup l s)"
proof (cases "ownRecord l s")
  case None
  then show ?thesis
    by (auto simp: assign_def lookup_def inherited_def isObject_def
        split: option.splits fieldValue.splits if_splits)
next
  case (Some r)
  then show ?thesis
    by (simp add: assign_tracked lookup_def)
qed

section \<open>markQueryResult\<close>

lemma markQueryResult_falsy:
  "\<not> truthy T (lookup i st) \<Longrightarrow> markQueryResult T h i res fm st = Inr st"
  by (simp add: markQueryResult_def)

lemma markQueryResult_tracked:
  assumes "ownRecord i st = Some r"
  shows "markQueryResult T h i res fm st =
     (case fm of
        None \<Rightarrow> Inr (st\<lparr>own := AList.map_entry i
          (\<lambda>r. r\<lparr>networkError := None,
                 graphQLErrors := (if h res then (case errors res of Some es \<Rightarrow> es | None \<Rightarrow> [])
                                   else []),
                 previousVariables := None,
                 networkStatus := ready\<rparr>) (own st)\<rparr>)
      | Some l \<Rightarrow> setNetworkStatus l ready (st\<lparr>own := AList.map_entry i
          (\<lambda>r. r\<lparr>networkError := None,
                 graphQLErrors := (if h res then (case errors res of Some es \<Rightarrow> es | None \<Rightarrow> [])
                                   else []),
                 previousVariables := None,
                 networkStatus := ready\<rparr>) (own st)\<rparr>))"
  using assms
  by (simp add: markQueryResult_def Let_def lookup_tracked setters assign_tracked' map_entry_twice)

lemma markQueryResult_ownRecord:
  assumes "ownRecord i st = Some r"
  shows "ownRecord k (state_of (markQueryResult T h i res fm st)) =
     (if k = i then
        Some (r\<lparr>networkError := None,
                graphQLErrors := (if h res then (case errors res of Some es \<Rightarrow> es | None \<Rightarrow> [])
                                  else []),
                previousVariables := None,
                networkStatus := ready\<rparr>)
      else if fm = Some k then map_option (\<lambda>r. r\<lparr>networkStatus := ready\<rparr>) (ownRecord k st)
      else ownRecord k st)"
  using assms markQueryResult_tracked [OF assms, of T h res fm]
  by (cases fm) (auto simp: setNetworkStatus_def ownRecord_assign)

lemma markQueryResult_raises:
  assumes "ownRecord i st = Some r"
  shows "raises e (markQueryResult T h i res fm st) =
           (e = TypeError \<and> (\<exists>l. fm = Some l \<and> \<not> isObject (lookup l st)))"
  using assms markQueryResult_tracked [OF assms, of T h res fm]
  by (cases fm) (auto simp: setNetworkStatus_def raises_assign lookup_own_map_entry lookup_tracked)

lemma markQueryResult_returns:
  assumes "ownRecord i st = Some r"
  shows "returns (markQueryResult T h i res fm st) =
           (\<forall>l. fm = Some l \<longrightarrow> isObject (lookup l st))"
  using assms markQueryResult_tracked [OF assms, of T h res fm]
  by (cases fm) (auto simp: setNetworkStatus_def returns_assign lookup_own_map_entry lookup_tracked)

lemma markQueryResult_untracked_own:
  assumes "ownRecord i st = None"
  shows "own (state_of (markQueryResult T h i res fm st)) = own st
     \<or> (\<exists>l. fm = Some l \<and> own (state_of (markQueryResult T h i res fm st))
                = AList.map_entry l (\<lambda>r. r\<lparr>networkStatus := ready\<rparr>) (own st))"
proof -
  have u: "AList.map_entry i f (own st) = own st" for f
    using assms by (simp add: ownRecord_def map_entry_untracked)
  show ?thesis
    by (cases fm)
       (auto simp: markQueryResult_def Let_def setters state_of_andThen own_assign u)
qed

section \<open>markQueryError\<close>

lemma markQueryError_falsy:
  "\<not> truthy T (lookup i st) \<Longrightarrow> markQueryError T i e fm st = Inr st"
  by (simp add: markQueryError_def)

lemma markQueryError_tracked:
  assumes "ownRecord i st = Some r"
  shows "markQueryError T i e fm st =
     (case fm of
        None \<Rightarrow> Inr (st\<lparr>own := AList.map_entry i
          (\<lambda>r. r\<lparr>networkError := Some e, networkStatus := error\<rparr>) (own st)\<rparr>)
      | Some l \<Rightarrow>
          andThen (setNetworkError l (Some e) (st\<lparr>own := AList.map_entry i
            (\<lambda>r. r\<lparr>networkError := Some e, networkStatus := error\<rparr>) (own st)\<rparr>))
            (\<lambda>st3. setNetworkStatus l error st3))"
  using assms
  by (simp add: markQueryError_def Let_def lookup_tracked setters assign_tracked' map_entry_twice)

lemma markQueryError_ownRecord:
  assumes "ownRecord i st = Some r"
  shows "ownRecord k (state_of (markQueryError T i e fm st)) =
     (if fm = Some k then
        map_option (\<lambda>r. r\<lparr>networkError := Some e, networkStatus := error\<rparr>) (ownRecord k st)
      else if k = i then Some (r\<lparr>networkError := Some e, networkStatus := error\<rparr>)
      else ownRecord k st)"
  using assms markQueryError_tracked [OF assms, of T e fm]
  by (cases fm; cases "ownRecord k st")
     (auto simp: setters state_of_andThen ownRecord_assign returns_assign
        lookup_own_map_entry assign_not_object lookup_tracked dest: not_object_untracked)

lemma markQueryError_raises:
  assumes "ownRecord i st = Some r"
  shows "raises x (markQueryError T i e fm st) =
           (x = TypeError \<and> (\<exists>l. fm = Some l \<and> \<not> isObject (lookup l st)))"
  using assms markQueryError_tracked [OF assms, of T e fm]
  by (cases fm)
     (auto simp: setters raises_andThen raises_assign returns_assign isObject_lookup_assign
        lookup_own_map_entry lookup_tracked)

lemma markQueryError_returns:
  assumes "ownRecord i st = Some r"
  shows "returns (markQueryError T i e fm st) =
           (\<forall>l. fm = Some l \<longrightarrow> isObject (lookup l st))"
  using assms markQueryError_tracked [OF assms, of T e fm]
  by (cases fm)
     (auto simp: setters returns_andThen returns_assign isObject_lookup_assign
        lookup_own_map_entry lookup_tracked)

lemma markQueryError_untracked_own:
  assumes "ownRecord i st = None"
  shows "own (state_of (markQueryError T i e fm st)) = own st
     \<or> (\<exists>l. fm = Some l \<and> own (state_of (markQueryError T i e fm st))
                = AList.map_entry l (\<lambda>r. r\<lparr>networkError := Some e, networkStatus := error\<rparr>)
                    (own st))"
proof -
  have u: "AList.map_entry i f (own st) = own st" for f
    using assms by (simp add: ownRecord_def map_entry_untracked)
  have v: "\<not> isObject (lookup l s) \<Longrightarrow> AList.map_entry l f (own s) = own s" for l s f
    by (cases "ownRecord l s") (auto simp: ownRecord_def map_entry_untracked lookup_def)
  show ?thesis
    by (cases fm)
       (auto simp: markQueryError_def Let_def setters state_of_andThen own_assign u
          map_entry_twice returns_assign dest: v)
qed

section \<open>markQueryResultClient\<close>

lemma markQueryResultClient_falsy:
  "\<not> truthy T (lookup i st) \<Longrightarrow> markQueryResultClient T i c st = Inr st"
  by (simp add: markQueryResultClient_def)

lemma markQueryResultClient_tracked:
  assumes "ownRecord i st = Some r"
  shows "markQueryResultClient T i c st =
     Inr (st\<lparr>own := AList.map_entry i
       (\<lambda>r. r\<lparr>networkError := None, previousVariables := None,
              networkStatus := (if c then ready else loading)\<rparr>) (own st)\<rparr>)"
  using assms
  by (simp add: markQueryResultClient_def Let_def lookup_tracked setters assign_tracked'
      map_entry_twice)

lemma markQueryResultClient_ownRecord:
  assumes "ownRecord i st = Some r"
  shows "ownRecord k (state_of (markQueryResultClient T i c st)) =
     (if k = i then
        Some (r\<lparr>networkError := None, previousVariables := None,
                networkStatus := (if c then ready else loading)\<rparr>)
      else ownRecord k st)"
  using assms by (simp add: markQueryResultClient_tracked [OF assms])

lemma markQueryResultClient_untracked_own:
  assumes "ownRecord i st = None"
  shows "own (state_of (markQueryResultClient T i c st)) = own st"
proof -
  have u: "AList.map_entry i f (own st) = own st" for f
    using assms by (simp add: ownRecord_def map_entry_untracked)
  show ?thesis
    by (auto simp: markQueryResultClient_def Let_def setters state_of_andThen own_assign u)
qed

section \<open>stopQuery and reset\<close>

lemma stopQuery_ownRecord:
  "ownRecord k (state_of (stopQuery i st)) = (if k = i then None else ownRecord k st)"
  by (simp add: stopQuery_def)

lemma stopQuery_inherited: "inherited k (state_of (stopQuery i st)) = inherited k st"
  by (simp add: stopQuery_def)

lemma ownRecord_None_iff: "ownRecord k st = None \<longleftrightarrow> k \<notin> fst ` set (own st)"
  by (simp add: ownRecord_def map_of_eq_None_iff)

lemma map_of_fold_map_entry:
  "map_of (fold (\<lambda>key s. AList.map_entry key (\<lambda>r. r\<lparr>networkStatus := loading\<rparr>) s) ks xs) k =
     (if k \<in> set ks then map_option (\<lambda>r. r\<lparr>networkStatus := loading\<rparr>) (map_of xs k)
      else map_of xs k)"
proof (induction ks arbitrary: xs)
  case Nil
  show ?case by simp
next
  case (Cons a ks)
  show ?case
    by (cases "map_of xs k") (auto simp: Cons.IH map_of_map_entry_if)
qed

lemma keys_map_entry: "map fst (AList.map_entry k f xs) = map fst xs"
  by (induction xs) auto

lemma keys_fold_map_entry:
  "map fst (fold (\<lambda>key s. AList.map_entry key f s) ks xs) = map fst xs"
  by (induction ks arbitrary: xs) (simp_all add: keys_map_entry)

lemma reset_ownRecord:
  "ownRecord k (state_of (reset ids st)) =
     (case ownRecord k st of None \<Rightarrow> None
      | Some r \<Rightarrow> Some (if k \<in> set ids then r\<lparr>networkStatus := loading\<rparr> else r))"
proof (cases "ownRecord k st")
  case None
  then show ?thesis
    by (simp add: reset_def ownRecord_def map_of_fold_map_entry)
next
  case (Some r)
  then have "k \<in> fst ` set (own st)"
    by (metis ownRecord_None_iff option.distinct(1))
  then show ?thesis using Some
    by (auto simp: reset_def ownRecord_def map_of_fold_map_entry)
qed

lemma reset_inherited: "inherited k (state_of (reset ids st)) = inherited k st"
  by (simp add: reset_def)

lemma run_append:
  "run T isEqual hasError (cs @ ds) st = run T isEqual hasError ds (run T isEqual hasError cs st)"
  by (induction cs arbitrary: st) simp_all

section \<open>What the methods add to Object.prototype\<close>

lemma andThen_added_keys:
  assumes "fst ` set (added (state_of r)) \<subseteq> S"
    and "\<And>s. fst ` set (added s) \<subseteq> S \<Longrightarrow> fst ` set (added (state_of (f s))) \<subseteq> S"
  shows "fst ` set (added (state_of (andThen r f))) \<subseteq> S"
proof (cases r)
  case (Inl x)
  then show ?thesis using assms(1) by simp
next
  case (Inr s)
  then show ?thesis using assms(2) [of s] assms(1) by simp
qed

lemma assign_added_keys:
  assumes "n \<in> S" and "fst ` set (added s) \<subseteq> S"
  shows "fst ` set (added (state_of (assign l f n v s))) \<subseteq> S"
proof -
  have "fst ` set (added (state_of (assign l f n v s))) \<subseteq> insert n (fst ` set (added s))"
    by (rule added_keys_assign)
  also have "\<dots> \<subseteq> S"
    using assms by blast
  finally show ?thesis .
qed

lemma setNetworkStatus_added_keys:
  assumes "set assignedFieldNames \<subseteq> S" and "fst ` set (added s) \<subseteq> S"
  shows "fst ` set (added (state_of (setNetworkStatus l x s))) \<subseteq> S"
  unfolding setNetworkStatus_def
  by (rule assign_added_keys) (use assms in \<open>simp_all add: assignedFieldNames_def\<close>)

lemma setNetworkError_added_keys:
  assumes "set assignedFieldNames \<subseteq> S" and "fst ` set (added s) \<subseteq> S"
  shows "fst ` set (added (state_of (setNetworkError l x s))) \<subseteq> S"
  unfolding setNetworkError_def
  by (rule assign_added_keys) (use assms in \<open>simp_all add: assignedFieldNames_def\<close>)

lemma setGraphQLErrors_added_keys:
  assumes "set assignedFieldNames \<subseteq> S" and "fst ` set (added s) \<subseteq> S"
  shows "fst ` set (added (state_of (setGraphQLErrors l x s))) \<subseteq> S"
  unfolding setGraphQLErrors_def
  by (rule assign_added_keys) (use assms in \<open>simp_all add: assignedFieldNames_def\<close>)

lemma clearPreviousVariables_added_keys:
  assumes "set assignedFieldNames \<subseteq> S" and "fst ` set (added s) \<subseteq> S"
  shows "fst ` set (added (state_of (clearPreviousVariables l s))) \<subseteq> S"
  unfolding clearPreviousVariables_def
  by (rule assign_added_keys) (use assms in \<open>simp_all add: assignedFieldNames_def\<close>)

lemma linked_added_keys:
  assumes "set assignedFieldNames \<subseteq> S" and "fst ` set (added s) \<subseteq> S"
  shows "fst ` set (added (state_of
           (case fm of None \<Rightarrow> Inr s | Some l \<Rightarrow> setNetworkStatus l x s))) \<subseteq> S"
proof (cases fm)
  case None
  then show ?thesis using assms(2) by simp
next
  case (Some l)
  then show ?thesis using setNetworkStatus_added_keys [OF assms] by simp
qed

lemma markQueryResult_added_keys:
  assumes A: "set assignedFieldNames \<subseteq> S" and "fst ` set (added st) \<subseteq> S"
  shows "fst ` set (added (state_of (markQueryResult T h i res fm st))) \<subseteq> S"
proof (cases "truthy T (lookup i st)")
  case False
  then show ?thesis using assms(2) by (simp add: markQueryResult_def)
next
  case True
  show ?thesis
    unfolding markQueryResult_def Let_def using True
    apply (simp only: simp_thms if_False)
    apply (rule andThen_added_keys)
     apply (rule setNetworkError_added_keys [OF A assms(2)])
    apply (rule andThen_added_keys)
     apply (erule setGraphQLErrors_added_keys [OF A])
    apply (rule andThen_added_keys)
     apply (erule clearPreviousVariables_added_keys [OF A])
    apply (rule andThen_added_keys)
     apply (erule setNetworkStatus_added_keys [OF A])
    apply (erule linked_added_keys [OF A])
    done
qed

lemma markQueryError_added_keys:
  assumes A: "set assignedFieldNames \<subseteq> S" and "fst ` set (added st) \<subseteq> S"
  shows "fst ` set (added (state_of (markQueryError T i e fm st))) \<subseteq> S"
proof (cases "truthy T (lookup i st)")
  case False
  then show ?thesis using assms(2) by (simp add: markQueryError_def)
next
  case True
  have last: "fst ` set (added (state_of
      (case fm of None \<Rightarrow> Inr s
       | Some l \<Rightarrow> andThen (setNetworkError l (Some e) s) (setNetworkStatus l error)))) \<subseteq> S"
    if "fst ` set (added s) \<subseteq> S" for s
  proof (cases fm)
    case None
    then show ?thesis using that by simp
  next
    case (Some l)
    have "fst ` set (added (state_of
        (andThen (setNetworkError l (Some e) s) (setNetworkStatus l error)))) \<subseteq> S"
      apply (rule andThen_added_keys)
       apply (rule setNetworkError_added_keys [OF A that])
      apply (erule setNetworkStatus_added_keys [OF A])
      done
    then show ?thesis using Some by simp
  qed
  show ?thesis
    unfolding markQueryError_def Let_def using True
    apply (simp only: simp_thms if_False)
    apply (rule andThen_added_keys)
     apply (rule setNetworkError_added_keys [OF A assms(2)])
    apply (rule andThen_added_keys)
     apply (erule setNetworkStatus_added_keys [OF A])
    apply (erule last)
    done
qed

lemma markQueryResultClient_added_keys:
  assumes A: "set assignedFieldNames \<subseteq> S" and "fst ` set (added st) \<subseteq> S"
  shows "fst ` set (added (state_of (markQueryResultClient T i c st))) \<subseteq> S"
proof (cases "truthy T (lookup i st)")
  case False
  then show ?thesis using assms(2) by (simp add: markQueryResultClient_def)
next
  case True
  show ?thesis
    unfolding markQueryResultClient_def Let_def using True
    apply (simp only: simp_thms if_False)
    apply (rule andThen_added_keys)
     apply (rule setNetworkError_added_keys [OF A assms(2)])
    apply (rule andThen_added_keys)
     apply (erule clearPreviousVariables_added_keys [OF A])
    apply (erule setNetworkStatus_added_keys [OF A])
    done
qed

lemma step_added_keys:
  assumes A: "set assignedFieldNames \<subseteq> S" and B: "fst ` set (added st) \<subseteq> S"
  shows "fst ` set (added (state_of (step T isEqual hasError c st))) \<subseteq> S"
proof (cases c)
  case (InitQuery i q d spv v isPoll isRefetch m fm)
  have "''networkStatus'' \<in> S"
    using A by (auto simp: assignedFieldNames_def)
  then have "insert ''networkStatus'' (fst ` set (added st)) \<subseteq> S"
    using B by blast
  then have "fst ` set (added (state_of
      (initQuery T isEqual i q d spv v isPoll isRefetch m fm st))) \<subseteq> S"
    using initQuery_added_keys [of T isEqual i q d spv v isPoll isRefetch m fm st]
    by (rule order_trans [rotated])
  then show ?thesis using InitQuery by simp
next
  case (MarkQueryResult i res fm)
  then show ?thesis using markQueryResult_added_keys [OF A B] by simp
next
  case (MarkQueryError i e fm)
  then show ?thesis using markQueryError_added_keys [OF A B] by simp
next
  case (MarkQueryResultClient i b)
  then show ?thesis using markQueryResultClient_added_keys [OF A B] by simp
next
  case (StopQuery i)
  then show ?thesis using B by (simp add: stopQuery_def)
next
  case (Reset ids)
  then show ?thesis using B by (simp add: reset_def)
qed

lemma run_added_keys:
  assumes A: "set assignedFieldNames \<subseteq> S" and "fst ` set (added st) \<subseteq> S"
  shows "fst ` set (added (run T isEqual hasError cs st)) \<subseteq> S"
  using assms(2)
proof (induction cs arbitrary: st)
  case Nil
  then show ?case by simp
next
  case (Cons c cs)
  show ?case
    using Cons.IH [OF step_added_keys [OF A Cons.prems]] by simp
qed

section \<open>Invariants of call sequences\<close>

lemma step_fetchMore:
  assumes "ownRecord k (state_of (step T isEqual hasError c st)) = Some r'"
    and "networkStatus r' = fetchMore"
  shows "linksTo k c \<or> (\<exists>r. ownRecord k st = Some r \<and> networkStatus r = fetchMore)"
proof (cases c)
  case (InitQuery i q d spv v isPoll isRefetch m fm)
  show ?thesis
  proof (cases "raises InternalError (initQuery T isEqual i q d spv v isPoll isRefetch m fm st)")
    case True
    then have "initQuery T isEqual i q d spv v isPoll isRefetch m fm st = Inl (InternalError, st)"
      by (simp add: initQuery_raises_iff initQuery_violation)
    then show ?thesis using assms InitQuery by simp
  next
    case False
    show ?thesis
    proof (cases "k = i")
      case True
      then show ?thesis using assms InitQuery False
        by (auto simp: initQuery_ownRecord_self split: if_splits)
    next
      case neq: False
      then show ?thesis using assms InitQuery False
        by (auto simp: initQuery_ownRecord_other split: if_splits)
    qed
  qed
next
  case (MarkQueryResult i res fm)
  show ?thesis
  proof (cases "ownRecord i st")
    case None
    from markQueryResult_untracked_own [OF None, of T hasError res fm]
    show ?thesis using assms MarkQueryResult
      by (auto simp: ownRecord_def map_of_map_entry_if split: if_splits)
  next
    case (Some r)
    then show ?thesis using assms MarkQueryResult
      by (auto simp: markQueryResult_ownRecord split: if_splits)
  qed
next
  case (MarkQueryError i e fm)
  show ?thesis
  proof (cases "ownRecord i st")
    case None
    from markQueryError_untracked_own [OF None, of T e fm]
    show ?thesis using assms MarkQueryError
      by (auto simp: ownRecord_def map_of_map_entry_if split: if_splits)
  next
    case (Some r)
    then show ?thesis using assms MarkQueryError
      by (auto simp: markQueryError_ownRecord split: if_splits)
  qed
next
  case (MarkQueryResultClient i b)
  show ?thesis
  proof (cases "ownRecord i st")
    case None
    from markQueryResultClient_untracked_own [OF None, of T b]
    show ?thesis using assms MarkQueryResultClient
      by (simp add: ownRecord_def)
  next
    case (Some r)
    then show ?thesis using assms MarkQueryResultClient
      by (auto simp: markQueryResultClient_ownRecord split: if_splits)
  qed
next
  case (StopQuery i)
  then show ?thesis using assms
    by (auto simp: stopQuery_ownRecord split: if_splits)
next
  case (Reset ids)
  then show ?thesis using assms
    by (auto simp: reset_ownRecord split: option.splits if_splits)
qed

lemma run_fetchMore:
  assumes "ownRecord k (run T isEqual hasError cs st) = Some r'"
    and "networkStatus r' = fetchMore"
  shows "(\<exists>c\<in>set cs. linksTo k c) \<or> (\<exists>r. ownRecord k st = Some r \<and> networkStatus r = fetchMore)"
  using assms
proof (induction cs arbitrary: st)
  case Nil
  then show ?case by auto
next
  case (Cons c cs)
  from Cons.prems have
    "ownRecord k (run T isEqual hasError cs (state_of (step T isEqual hasError c st))) = Some r'"
    by simp
  from Cons.IH [OF this Cons.prems(2)] show ?case
  proof
    assume "\<exists>c\<in>set cs. linksTo k c"
    then show ?thesis by auto
  next
    assume "\<exists>r. ownRecord k (state_of (step T isEqual hasError c st)) = Some r
                \<and> networkStatus r = fetchMore"
    then obtain r where "ownRecord k (state_of (step T isEqual hasError c st)) = Some r"
      and "networkStatus r = fetchMore"
      by blast
    from step_fetchMore [OF this] show ?thesis by auto
  qed
qed

lemma step_unlinked_inv:
  assumes "unlinked c"
    and inv: "\<forall>k r. ownRecord k st = Some r \<longrightarrow> previousVariables r \<noteq> None
                \<longrightarrow> networkStatus r = setVariables"
    and "ownRecord k (state_of (step T isEqual hasError c st)) = Some r'"
    and "previousVariables r' \<noteq> None"
  shows "networkStatus r' = setVariables"
proof (cases c)
  case (InitQuery i q d spv v isPoll isRefetch m fm)
  then have fm: "fm = None" using assms(1) by simp
  show ?thesis
  proof (cases "raises InternalError (initQuery T isEqual i q d spv v isPoll isRefetch m fm st)")
    case True
    then have "initQuery T isEqual i q d spv v isPoll isRefetch m fm st = Inl (InternalError, st)"
      by (simp add: initQuery_raises_iff initQuery_violation)
    then show ?thesis using assms(3,4) InitQuery inv by simp
  next
    case False
    show ?thesis
    proof (cases "k = i")
      case True
      then show ?thesis using assms(3,4) InitQuery False fm
        by (auto simp: initQuery_ownRecord_self split: option.splits if_splits)
    next
      case neq: False
      then show ?thesis using assms(3,4) InitQuery fm inv
        by (auto simp: initQuery_ownRecord_other)
    qed
  qed
next
  case (MarkQueryResult i res fm)
  then have fm: "fm = None" using assms(1) by simp
  show ?thesis
  proof (cases "ownRecord i st")
    case None
    from markQueryResult_untracked_own [OF None, of T hasError res fm]
    show ?thesis using assms(3,4) MarkQueryResult inv fm
      by (simp add: ownRecord_def)
  next
    case (Some r)
    then show ?thesis using assms(3,4) MarkQueryResult fm inv
      by (auto simp: markQueryResult_ownRecord split: if_splits)
  qed
next
  case (MarkQueryError i e fm)
  then show ?thesis using assms(1) by simp
next
  case (MarkQueryResultClient i b)
  show ?thesis
  proof (cases "ownRecord i st")
    case None
    from markQueryResultClient_untracked_own [OF None, of T b]
    show ?thesis using assms(3,4) MarkQueryResultClient inv
      by (simp add: ownRecord_def)
  next
    case (Some r)
    then show ?thesis using assms(3,4) MarkQueryResultClient inv
      by (auto simp: markQueryResultClient_ownRecord split: if_splits)
  qed
next
  case (StopQuery i)
  then show ?thesis using assms(3,4) inv
    by (auto simp: stopQuery_ownRecord split: if_splits)
next
  case (Reset ids)
  then show ?thesis using assms(1) by simp
qed

lemma run_unlinked_inv:
  assumes "\<forall>c\<in>set cs. unlinked c"
    and "\<forall>k r. ownRecord k st = Some r \<longrightarrow> previousVariables r \<noteq> None
                \<longrightarrow> networkStatus r = setVariables"
    and "ownRecord k (run T isEqual hasError cs st) = Some r'"
    and "previousVariables r' \<noteq> None"
  shows "networkStatus r' = setVariables"
  using assms
proof (induction cs arbitrary: st)
  case Nil
  then show ?case by simp
next
  case (Cons c cs)
  have u: "unlinked c" and us: "\<forall>c\<in>set cs. unlinked c"
    using Cons.prems(1) by simp_all
  have inv': "\<forall>k r. ownRecord k (state_of (step T isEqual hasError c st)) = Some r
      \<longrightarrow> previousVariables r \<noteq> None \<longrightarrow> networkStatus r = setVariables"
    using step_unlinked_inv [OF u Cons.prems(2)] by blast
  have "ownRecord k (run T isEqual hasError cs (state_of (step T isEqual hasError c st))) = Some r'"
    using Cons.prems(3) by simp
  from Cons.IH [OF us inv' this Cons.prems(4)] show ?case .
qed

section \<open>The claims\<close>

text \<open>The definitions unfolded to evaluate the examples.\<close>

lemmas eval_defs = initQuery_def markQueryResult_def markQueryError_def markQueryResultClient_def
  stopQuery_def reset_def setNetworkStatus_def setNetworkError_def setGraphQLErrors_def
  clearPreviousVariables_def assign_def lookup_def get_def ownRecord_def inherited_def
  objectPrototypeNames_def truthy_def queryStringOf_def newNetworkStatus_def
  emptyStore_def storeOf_def exValue_def exResult_def isEqualEx_def hasErrorsEx_def allTruthy_def Let_def

text \<open>
  Claim C1, amended. From the empty store, after every sequence of \<^verbatim>\<open>initQuery\<close> and
  \<^verbatim>\<open>markQueryResult\<close> calls without \<^verbatim>\<open>fetchMoreForQueryId\<close>, \<^verbatim>\<open>markQueryResultClient\<close>
  calls and \<^verbatim>\<open>stopQuery\<close> calls, a tracked record has \<^verbatim>\<open>previousVariables\<close> only while
  its status is \<^verbatim>\<open>setVariables\<close>; and \<^verbatim>\<open>markQueryResult\<close> and \<^verbatim>\<open>markQueryResultClient\<close>
  on a tracked id leave its record with \<^verbatim>\<open>previousVariables\<close> cleared. The claim as
  stated, for every sequence of calls, fails: \<^verbatim>\<open>reset\<close> and the assignments to the record
  named by \<^verbatim>\<open>fetchMoreForQueryId\<close> write the status alone and keep \<^verbatim>\<open>previousVariables\<close>.
\<close>

theorem C1_previousVariables:
  "((\<forall>c\<in>set cs. unlinked c) \<and> get k (run T isEqual hasError cs emptyStore) = Rec r
      \<and> previousVariables r \<noteq> None \<longrightarrow> networkStatus r = setVariables)
   \<and> (get queryId st = Rec p \<longrightarrow>
        (\<exists>r'. get queryId (state_of (markQueryResult T hasError queryId result fm st)) = Rec r'
              \<and> previousVariables r' = None)
        \<and> (\<exists>r'. get queryId (state_of (markQueryResultClient T queryId complete st)) = Rec r'
              \<and> previousVariables r' = None))"
proof -
  have a: "(\<forall>c\<in>set cs. unlinked c) \<and> get k (run T isEqual hasError cs emptyStore) = Rec r
      \<and> previousVariables r \<noteq> None \<longrightarrow> networkStatus r = setVariables"
  proof
    assume h: "(\<forall>c\<in>set cs. unlinked c) \<and> get k (run T isEqual hasError cs emptyStore) = Rec r
      \<and> previousVariables r \<noteq> None"
    show "networkStatus r = setVariables"
    proof (rule run_unlinked_inv)
      show "\<forall>c\<in>set cs. unlinked c" using h by simp
      show "ownRecord k (run T isEqual hasError cs emptyStore) = Some r"
        using h by (simp add: get_Rec_iff)
      show "previousVariables r \<noteq> None" using h by simp
      show "\<forall>k' r0. ownRecord k' emptyStore = Some r0 \<longrightarrow> previousVariables r0 \<noteq> None
              \<longrightarrow> networkStatus r0 = setVariables"
        by (simp add: ownRecord_def emptyStore_def)
    qed
  qed
  have b: "get queryId st = Rec p \<longrightarrow>
        (\<exists>r'. get queryId (state_of (markQueryResult T hasError queryId result fm st)) = Rec r'
              \<and> previousVariables r' = None)
        \<and> (\<exists>r'. get queryId (state_of (markQueryResultClient T queryId complete st)) = Rec r'
              \<and> previousVariables r' = None)"
    by (simp add: get_Rec_iff markQueryResult_ownRecord markQueryResultClient_ownRecord)
  from a b show ?thesis by blast
qed

theorem C1_previousVariables_witness:
  "run allTruthy isEqualEx hasErrorsEx
      [InitQuery ''q1'' ''query'' () False [(''x'', 1)] False False () None,
       MarkQueryResult ''q1'' (exResult None) None,
       InitQuery ''q1'' ''query'' () True [(''x'', 2)] False False () None :: exCall] emptyStore
     = storeOf [(''q1'', (exValue ''query'' [(''x'', 2)] setVariables)
                   \<lparr>previousVariables := Some [(''x'', 1)]\<rparr>)]
   \<and> (\<exists>r'. get ''q1'' (state_of
        (markQueryResult allTruthy hasErrorsEx ''q1'' (exResult None) None
           (storeOf [(''q1'', (exValue ''query'' [(''x'', 2)] setVariables)
                       \<lparr>previousVariables := Some [(''x'', 1)]\<rparr>)]))) = Rec r'
         \<and> previousVariables r' = None)
   \<and> (\<exists>r'. get ''q1'' (state_of
        (markQueryResultClient allTruthy ''q1'' False
           (storeOf [(''q1'', (exValue ''query'' [(''x'', 2)] setVariables)
                       \<lparr>previousVariables := Some [(''x'', 1)]\<rparr>)]))) = Rec r'
         \<and> previousVariables r' = None)"
proof -
  have e: "run allTruthy isEqualEx hasErrorsEx
      [InitQuery ''q1'' ''query'' () False [(''x'', 1)] False False () None,
       MarkQueryResult ''q1'' (exResult None) None,
       InitQuery ''q1'' ''query'' () True [(''x'', 2)] False False () None :: exCall] emptyStore
     = storeOf [(''q1'', (exValue ''query'' [(''x'', 2)] setVariables)
                   \<lparr>previousVariables := Some [(''x'', 1)]\<rparr>)]"
    by (simp add: eval_defs)
  have g: "get ''q1'' (storeOf [(''q1'', (exValue ''query'' [(''x'', 2)] setVariables)
                   \<lparr>previousVariables := Some [(''x'', 1)]\<rparr>)])
      = Rec ((exValue ''query'' [(''x'', 2)] setVariables)
                   \<lparr>previousVariables := Some [(''x'', 1)]\<rparr>)"
    by (simp add: eval_defs)
  show ?thesis
    using e g
      C1_previousVariables [of
        "[InitQuery ''q1'' ''query'' () False [(''x'', 1)] False False () None,
          MarkQueryResult ''q1'' (exResult None) None,
          InitQuery ''q1'' ''query'' () True [(''x'', 2)] False False () None :: exCall]"
        "''q1''" allTruthy isEqualEx hasErrorsEx
        "(exValue ''query'' [(''x'', 2)] setVariables)\<lparr>previousVariables := Some [(''x'', 1)]\<rparr>"
        "''q1''"
        "storeOf [(''q1'', (exValue ''query'' [(''x'', 2)] setVariables)
                   \<lparr>previousVariables := Some [(''x'', 1)]\<rparr>)]"
        "(exValue ''query'' [(''x'', 2)] setVariables)\<lparr>previousVariables := Some [(''x'', 1)]\<rparr>"
        "exResult None" None False]
    by simp
qed

theorem C1_counterexample:
  "run allTruthy isEqualEx hasErrorsEx
      [InitQuery ''q1'' ''query'' () False [(''x'', 1)] False False () None,
       MarkQueryResult ''q1'' (exResult None) None,
       InitQuery ''q1'' ''query'' () True [(''x'', 2)] False False () None,
       Reset [''q1''] :: exCall] emptyStore
     = storeOf [(''q1'', (exValue ''query'' [(''x'', 2)] loading)
                   \<lparr>previousVariables := Some [(''x'', 1)]\<rparr>)]"
  by (simp add: eval_defs)

text \<open>
  Claim C2. On an id that already has a record, \<^verbatim>\<open>initQuery\<close> raises the internal
  consistency error if and only if the new query string differs from the stored one,
  whatever the status and the other fields of the stored record and whatever the other
  arguments of the call.
\<close>

theorem C2_initQuery_consistency:
  assumes "get queryId st = Rec p"
  shows "raises InternalError
           (initQuery T isEqual queryId q d spv v isPoll isRefetch m fm st)
         = (queryString p \<noteq> q)"
  using assms by (simp add: get_Rec_iff initQuery_raises_tracked)

theorem C2_initQuery_consistency_witness:
  "raises InternalError
     (initQuery allTruthy isEqualEx ''q1'' ''query B'' () True [(''x'', 2)] True False () None
        (storeOf [(''q1'', exValue ''query A'' [(''x'', 1)] poll)]))
   \<and> \<not> raises InternalError
     (initQuery allTruthy isEqualEx ''q1'' ''query A'' () True [(''x'', 2)] True False ()
        (Some ''q9'') (storeOf [(''q1'', exValue ''query A'' [(''x'', 1)] poll)]))"
proof -
  have h: "get ''q1'' (storeOf [(''q1'', exValue ''query A'' [(''x'', 1)] poll)])
             = Rec (exValue ''query A'' [(''x'', 1)] poll)"
    by (simp add: get_def lookup_def ownRecord_def storeOf_def)
  show ?thesis
    using C2_initQuery_consistency [OF h, of allTruthy isEqualEx "''query B''" "()" True
        "[(''x'', 2)]" True False "()" None]
      C2_initQuery_consistency [OF h, of allTruthy isEqualEx "''query A''" "()" True
        "[(''x'', 2)]" True False "()" "Some ''q9''"]
    by (simp add: exValue_def)
qed

text \<open>
  Claim C3, amended. For a call of \<^verbatim>\<open>initQuery\<close> that does not raise the consistency
  error and whose \<^verbatim>\<open>fetchMoreForQueryId\<close> is not the id itself, the record of the id has
  status \<^verbatim>\<open>setVariables\<close> exactly when \<^verbatim>\<open>storePreviousVariables\<close> is true, a prior record
  exists, its status is not \<^verbatim>\<open>loading\<close> and \<^verbatim>\<open>isEqual\<close> of its variables and the new ones
  is false; and then \<^verbatim>\<open>previousVariables\<close> of the new record is the prior record's
  variables. In particular a prior status \<^verbatim>\<open>loading\<close> never gives \<^verbatim>\<open>setVariables\<close>. The
  claim as stated fails when \<^verbatim>\<open>fetchMoreForQueryId\<close> is the id itself (the status written
  last is \<^verbatim>\<open>fetchMore\<close>) and when the query string differs (the call throws).
\<close>

theorem C3_initQuery_setVariables:
  assumes "\<not> raises InternalError
             (initQuery T isEqual queryId q d spv v isPoll isRefetch m fm st)"
    and "fm \<noteq> Some queryId"
  shows "\<exists>r'. get queryId
              (state_of (initQuery T isEqual queryId q d spv v isPoll isRefetch m fm st))
            = Rec r'
    \<and> (networkStatus r' = setVariables) =
        (spv \<and> (\<exists>p. get queryId st = Rec p \<and> networkStatus p \<noteq> loading
                    \<and> \<not> isEqual (variables p) v))
    \<and> (networkStatus r' = setVariables \<longrightarrow>
        (\<exists>p. get queryId st = Rec p \<and> previousVariables r' = Some (variables p)))"
  using assms
  by (auto simp: get_Rec_iff initQuery_ownRecord_self split: option.splits)

theorem C3_initQuery_setVariables_witness:
  "initQuery allTruthy isEqualEx ''q1'' ''query'' () True [(''x'', 2)] False False () None
      (storeOf [(''q1'', exValue ''query'' [(''x'', 1)] ready)])
     = Inr (storeOf [(''q1'', (exValue ''query'' [(''x'', 2)] setVariables)
                               \<lparr>previousVariables := Some [(''x'', 1)]\<rparr>)])
   \<and> initQuery allTruthy isEqualEx ''q1'' ''query'' () True [(''x'', 2)] False False () None
      (storeOf [(''q1'', exValue ''query'' [(''x'', 1)] loading)])
     = Inr (storeOf [(''q1'', exValue ''query'' [(''x'', 2)] loading)])"
proof -
  have h1: "\<not> raises InternalError
      (initQuery allTruthy isEqualEx ''q1'' ''query'' () True [(''x'', 2)] False False () None
         (storeOf [(''q1'', exValue ''query'' [(''x'', 1)] ready)]))"
    by (simp add: eval_defs)
  have h2: "(None :: string option) \<noteq> Some ''q1''"
    by simp
  have "\<exists>r'. get ''q1'' (state_of
      (initQuery allTruthy isEqualEx ''q1'' ''query'' () True [(''x'', 2)] False False () None
         (storeOf [(''q1'', exValue ''query'' [(''x'', 1)] ready)]))) = Rec r'
      \<and> networkStatus r' = setVariables"
    using C3_initQuery_setVariables [OF h1 h2]
    by (auto simp: eval_defs)
  then show ?thesis
    by (simp add: eval_defs)
qed

theorem C3_counterexample:
  "get ''q1'' (storeOf [(''q1'', exValue ''query'' [(''x'', 1)] ready)])
     = Rec (exValue ''query'' [(''x'', 1)] ready)
   \<and> \<not> isEqualEx [(''x'', 1)] [(''x'', 2)]
   \<and> initQuery allTruthy isEqualEx ''q1'' ''query'' () True [(''x'', 2)] False False ()
       (Some ''q1'') (storeOf [(''q1'', exValue ''query'' [(''x'', 1)] ready)])
     = Inr (storeOf [(''q1'', (exValue ''query'' [(''x'', 2)] fetchMore)
                       \<lparr>previousVariables := Some [(''x'', 1)]\<rparr>)])
   \<and> initQuery allTruthy isEqualEx ''q1'' ''other query'' () True [(''x'', 2)] False False ()
       None (storeOf [(''q1'', exValue ''query'' [(''x'', 1)] ready)])
     = Inl (InternalError, storeOf [(''q1'', exValue ''query'' [(''x'', 1)] ready)])"
  by (simp add: eval_defs)

text \<open>
  Claim C4, amended. A call of \<^verbatim>\<open>initQuery\<close> that does not raise the consistency error
  and whose \<^verbatim>\<open>fetchMoreForQueryId\<close> names a tracked record returns normally, and afterwards
  that record has status \<^verbatim>\<open>fetchMore\<close> whatever its status was; when it is not the
  record of the id being initialized, its other fields are kept. The claim as stated, for
  every call, fails when the call throws the consistency error before the assignment.
\<close>

theorem C4_initQuery_linked:
  assumes "\<not> raises InternalError
             (initQuery T isEqual queryId q d spv v isPoll isRefetch m (Some l) st)"
    and "get l st = Rec rl"
  shows "returns (initQuery T isEqual queryId q d spv v isPoll isRefetch m (Some l) st)
    \<and> (\<exists>r'. get l (state_of
                 (initQuery T isEqual queryId q d spv v isPoll isRefetch m (Some l) st)) = Rec r'
          \<and> networkStatus r' = fetchMore)
    \<and> (l \<noteq> queryId \<longrightarrow>
        get l (state_of (initQuery T isEqual queryId q d spv v isPoll isRefetch m (Some l) st))
          = Rec (rl\<lparr>networkStatus := fetchMore\<rparr>))"
proof -
  have rl: "ownRecord l st = Some rl"
    using assms(2) by (simp add: get_Rec_iff)
  have ob: "isObject (lookup l st)"
    using rl by (simp add: lookup_tracked)
  have r: "returns (initQuery T isEqual queryId q d spv v isPoll isRefetch m (Some l) st)"
    using assms(1) ob by (simp add: initQuery_returns)
  have s: "\<exists>r'. get l (state_of
                 (initQuery T isEqual queryId q d spv v isPoll isRefetch m (Some l) st)) = Rec r'
          \<and> networkStatus r' = fetchMore"
  proof (cases "l = queryId")
    case True
    then show ?thesis using assms(1) by (simp add: get_Rec_iff initQuery_ownRecord_self)
  next
    case False
    then show ?thesis using assms(1) rl by (simp add: get_Rec_iff initQuery_ownRecord_other)
  qed
  have t: "l \<noteq> queryId \<longrightarrow>
        get l (state_of (initQuery T isEqual queryId q d spv v isPoll isRefetch m (Some l) st))
          = Rec (rl\<lparr>networkStatus := fetchMore\<rparr>)"
    using assms(1) rl by (simp add: get_Rec_iff initQuery_ownRecord_other)
  from r s t show ?thesis by blast
qed

theorem C4_initQuery_linked_witness:
  "initQuery allTruthy isEqualEx ''q2'' ''more'' () False [(''x'', 1)] False False ()
      (Some ''q1'') (storeOf [(''q1'', exValue ''base'' [(''x'', 1)] ready)])
    = Inr (storeOf [(''q1'', exValue ''base'' [(''x'', 1)] fetchMore),
                    (''q2'', exValue ''more'' [(''x'', 1)] loading)])"
proof -
  have h1: "\<not> raises InternalError
      (initQuery allTruthy isEqualEx ''q2'' ''more'' () False [(''x'', 1)] False False ()
         (Some ''q1'') (storeOf [(''q1'', exValue ''base'' [(''x'', 1)] ready)]))"
    by (simp add: eval_defs)
  have h2: "get ''q1'' (storeOf [(''q1'', exValue ''base'' [(''x'', 1)] ready)])
              = Rec (exValue ''base'' [(''x'', 1)] ready)"
    by (simp add: eval_defs)
  have "returns
      (initQuery allTruthy isEqualEx ''q2'' ''more'' () False [(''x'', 1)] False False ()
         (Some ''q1'') (storeOf [(''q1'', exValue ''base'' [(''x'', 1)] ready)]))"
    using C4_initQuery_linked [OF h1 h2] by simp
  then show ?thesis
    by (simp add: eval_defs)
qed

theorem C4_counterexample:
  "get ''q2'' (storeOf [(''q1'', exValue ''query A'' [] ready), (''q2'', exValue ''base'' [] ready)])
     = Rec (exValue ''base'' [] ready)
   \<and> initQuery allTruthy isEqualEx ''q1'' ''query B'' () False [] False False () (Some ''q2'')
       (storeOf [(''q1'', exValue ''query A'' [] ready), (''q2'', exValue ''base'' [] ready)])
     = Inl (InternalError,
         storeOf [(''q1'', exValue ''query A'' [] ready), (''q2'', exValue ''base'' [] ready)])"
  by (simp add: eval_defs)

text \<open>
  Claim C5, amended. \<^verbatim>\<open>markQueryResult\<close> on an id for which \<^verbatim>\<open>this.store[queryId]\<close> is
  \<^verbatim>\<open>undefined\<close> returns the store as it is. On a tracked id it leaves the record with
  \<^verbatim>\<open>networkError\<close> cleared, \<^verbatim>\<open>graphQLErrors\<close> set to the errors of the result when the
  result has errors and to the empty list otherwise (a result without an \<^verbatim>\<open>errors\<close>
  field supplies no errors), \<^verbatim>\<open>previousVariables\<close> cleared and status \<^verbatim>\<open>ready\<close>; and with
  a \<^verbatim>\<open>fetchMoreForQueryId\<close> that names a tracked record it returns normally and that
  record has status \<^verbatim>\<open>ready\<close> too. The claim as stated, for every untracked id, fails for
  an untracked id that is a property name of \<^verbatim>\<open>Object.prototype\<close>: the test
  \<^verbatim>\<open>!this.store[queryId]\<close> finds the inherited built-in, and the method goes on to the
  assignment to the record named by \<^verbatim>\<open>fetchMoreForQueryId\<close>.
\<close>

theorem C5_markQueryResult:
  "(get queryId st = Undefined \<longrightarrow>
      markQueryResult T hasError queryId result fm st = Inr st)
   \<and> (get queryId st = Rec r \<longrightarrow>
      get queryId (state_of (markQueryResult T hasError queryId result fm st)) =
        Rec (r\<lparr>networkError := None,
               graphQLErrors := (if hasError result
                                 then (case errors result of Some es \<Rightarrow> es | None \<Rightarrow> [])
                                 else []),
               previousVariables := None,
               networkStatus := ready\<rparr>))
   \<and> (get queryId st = Rec r \<and> fm = Some l \<and> get l st = Rec rl \<longrightarrow>
      returns (markQueryResult T hasError queryId result fm st)
      \<and> (\<exists>rl'. get l (state_of (markQueryResult T hasError queryId result fm st)) = Rec rl'
            \<and> networkStatus rl' = ready))"
proof -
  have a: "get queryId st = Undefined \<longrightarrow>
      markQueryResult T hasError queryId result fm st = Inr st"
    by (simp add: get_def markQueryResult_falsy)
  have b: "get queryId st = Rec r \<longrightarrow>
      get queryId (state_of (markQueryResult T hasError queryId result fm st)) =
        Rec (r\<lparr>networkError := None,
               graphQLErrors := (if hasError result
                                 then (case errors result of Some es \<Rightarrow> es | None \<Rightarrow> [])
                                 else []),
               previousVariables := None,
               networkStatus := ready\<rparr>)"
    by (simp add: get_Rec_iff markQueryResult_ownRecord)
  have c: "get queryId st = Rec r \<and> fm = Some l \<and> get l st = Rec rl \<longrightarrow>
      returns (markQueryResult T hasError queryId result fm st)
      \<and> (\<exists>rl'. get l (state_of (markQueryResult T hasError queryId result fm st)) = Rec rl'
            \<and> networkStatus rl' = ready)"
    by (auto simp: get_Rec_iff markQueryResult_ownRecord markQueryResult_returns lookup_tracked)
  from a b c show ?thesis by blast
qed

theorem C5_markQueryResult_witness:
  "markQueryResult allTruthy hasErrorsEx ''q7'' (exResult (Some [''e1'', ''e2''])) None
      (storeOf [(''q1'', exValue ''a'' [] loading)])
     = Inr (storeOf [(''q1'', exValue ''a'' [] loading)])
   \<and> markQueryResult allTruthy hasErrorsEx ''q1'' (exResult (Some [''e1'', ''e2'']))
        (Some ''q2'')
        (storeOf [(''q1'', exValue ''a'' [] loading), (''q2'', exValue ''b'' [] fetchMore)])
     = Inr (storeOf [(''q1'', (exValue ''a'' [] ready)\<lparr>graphQLErrors := [''e1'', ''e2'']\<rparr>),
                     (''q2'', exValue ''b'' [] ready)])
   \<and> markQueryResult allTruthy (\<lambda>r. False) ''q1'' (exResult (Some [''e1'', ''e2'']))
        (Some ''q2'')
        (storeOf [(''q1'', exValue ''a'' [] loading), (''q2'', exValue ''b'' [] fetchMore)])
     = Inr (storeOf [(''q1'', exValue ''a'' [] ready), (''q2'', exValue ''b'' [] ready)])"
proof -
  have u: "get ''q7'' (storeOf [(''q1'', exValue ''a'' [] loading)]) = Undefined"
    by (simp add: eval_defs)
  have g1: "get ''q1''
      (storeOf [(''q1'', exValue ''a'' [] loading), (''q2'', exValue ''b'' [] fetchMore)])
      = Rec (exValue ''a'' [] loading)"
    by (simp add: eval_defs)
  have g2: "get ''q2''
      (storeOf [(''q1'', exValue ''a'' [] loading), (''q2'', exValue ''b'' [] fetchMore)])
      = Rec (exValue ''b'' [] fetchMore)"
    by (simp add: eval_defs)
  have a: "markQueryResult allTruthy hasErrorsEx ''q7'' (exResult (Some [''e1'', ''e2''])) None
      (storeOf [(''q1'', exValue ''a'' [] loading)])
     = Inr (storeOf [(''q1'', exValue ''a'' [] loading)])"
    using u C5_markQueryResult [of "''q7''" "storeOf [(''q1'', exValue ''a'' [] loading)]"
        allTruthy hasErrorsEx "exResult (Some [''e1'', ''e2''])" None]
    by simp
  have b: "returns (markQueryResult allTruthy hasErrorsEx ''q1''
        (exResult (Some [''e1'', ''e2''])) (Some ''q2'')
        (storeOf [(''q1'', exValue ''a'' [] loading), (''q2'', exValue ''b'' [] fetchMore)]))"
    using g1 g2 C5_markQueryResult [of "''q1''"
        "storeOf [(''q1'', exValue ''a'' [] loading), (''q2'', exValue ''b'' [] fetchMore)]"
        allTruthy hasErrorsEx "exResult (Some [''e1'', ''e2''])"
        "Some ''q2''" "exValue ''a'' [] loading" "''q2''" "exValue ''b'' [] fetchMore"]
    by simp
  from a b show ?thesis
    by (simp add: eval_defs)
qed

theorem C5_counterexample:
  "ownRecord ''constructor'' (storeOf [(''q1'', exValue ''a'' [] loading)]) = None
   \<and> get ''constructor'' (storeOf [(''q1'', exValue ''a'' [] loading)]) = Builtin ''constructor''
   \<and> markQueryResult allTruthy hasErrorsEx ''constructor'' (exResult None) (Some ''q1'')
        (storeOf [(''q1'', exValue ''a'' [] loading)])
     = Inr (storeOf [(''q1'', exValue ''a'' [] ready)])"
  by (simp add: eval_defs)

text \<open>
  Claim C6, amended. \<^verbatim>\<open>markQueryError\<close> on an id for which \<^verbatim>\<open>this.store[queryId]\<close> is
  \<^verbatim>\<open>undefined\<close> returns the store as it is. On a tracked id it sets the record's
  \<^verbatim>\<open>networkError\<close> to the given error and its status to \<^verbatim>\<open>error\<close>, all other fields
  kept; and with a \<^verbatim>\<open>fetchMoreForQueryId\<close> that names a tracked record it returns normally
  and sets the same two fields of that record. The claim as stated, for every untracked
  id, fails for an untracked id that is a property name of \<^verbatim>\<open>Object.prototype\<close>, as for
  \<^verbatim>\<open>markQueryResult\<close>.
\<close>

theorem C6_markQueryError:
  "(get queryId st = Undefined \<longrightarrow> markQueryError T queryId e fm st = Inr st)
   \<and> (get queryId st = Rec r \<longrightarrow>
      get queryId (state_of (markQueryError T queryId e fm st)) =
        Rec (r\<lparr>networkError := Some e, networkStatus := error\<rparr>))
   \<and> (get queryId st = Rec r \<and> fm = Some l \<and> get l st = Rec rl \<longrightarrow>
      returns (markQueryError T queryId e fm st)
      \<and> get l (state_of (markQueryError T queryId e fm st)) =
          Rec (rl\<lparr>networkError := Some e, networkStatus := error\<rparr>))"
proof -
  have a: "get queryId st = Undefined \<longrightarrow> markQueryError T queryId e fm st = Inr st"
    by (simp add: get_def markQueryError_falsy)
  have b: "get queryId st = Rec r \<longrightarrow>
      get queryId (state_of (markQueryError T queryId e fm st)) =
        Rec (r\<lparr>networkError := Some e, networkStatus := error\<rparr>)"
    by (simp add: get_Rec_iff markQueryError_ownRecord)
  have c: "get queryId st = Rec r \<and> fm = Some l \<and> get l st = Rec rl \<longrightarrow>
      returns (markQueryError T queryId e fm st)
      \<and> get l (state_of (markQueryError T queryId e fm st)) =
          Rec (rl\<lparr>networkError := Some e, networkStatus := error\<rparr>)"
    by (auto simp: get_Rec_iff markQueryError_ownRecord markQueryError_returns lookup_tracked)
  from a b c show ?thesis by blast
qed

theorem C6_markQueryError_witness:
  "markQueryError allTruthy ''q7'' ''timeout'' None (storeOf [(''q1'', exValue ''a'' [] loading)])
      = Inr (storeOf [(''q1'', exValue ''a'' [] loading)])
   \<and> markQueryError allTruthy ''q1'' ''timeout'' (Some ''q2'')
        (storeOf [(''q1'', exValue ''a'' [] loading), (''q2'', exValue ''b'' [] fetchMore)])
      = Inr (storeOf [(''q1'', (exValue ''a'' [] error)\<lparr>networkError := Some ''timeout''\<rparr>),
                      (''q2'', (exValue ''b'' [] error)\<lparr>networkError := Some ''timeout''\<rparr>)])"
proof -
  have u: "get ''q7'' (storeOf [(''q1'', exValue ''a'' [] loading)]) = Undefined"
    by (simp add: eval_defs)
  have g1: "get ''q1''
      (storeOf [(''q1'', exValue ''a'' [] loading), (''q2'', exValue ''b'' [] fetchMore)])
      = Rec (exValue ''a'' [] loading)"
    by (simp add: eval_defs)
  have g2: "get ''q2''
      (storeOf [(''q1'', exValue ''a'' [] loading), (''q2'', exValue ''b'' [] fetchMore)])
      = Rec (exValue ''b'' [] fetchMore)"
    by (simp add: eval_defs)
  have a: "markQueryError allTruthy ''q7'' ''timeout'' None
      (storeOf [(''q1'', exValue ''a'' [] loading)])
      = Inr (storeOf [(''q1'', exValue ''a'' [] loading)])"
    using u C6_markQueryError [of "''q7''" "storeOf [(''q1'', exValue ''a'' [] loading)]"
        allTruthy "''timeout''" None]
    by simp
  have b: "returns (markQueryError allTruthy ''q1'' ''timeout'' (Some ''q2'')
        (storeOf [(''q1'', exValue ''a'' [] loading), (''q2'', exValue ''b'' [] fetchMore)]))"
    using g1 g2 C6_markQueryError [of "''q1''"
        "storeOf [(''q1'', exValue ''a'' [] loading), (''q2'', exValue ''b'' [] fetchMore)]"
        allTruthy "''timeout''" "Some ''q2''" "exValue ''a'' [] loading"
        "''q2''" "exValue ''b'' [] fetchMore"]
    by simp
  from a b show ?thesis
    by (simp add: eval_defs)
qed

theorem C6_counterexample:
  "ownRecord ''constructor'' (storeOf [(''q1'', exValue ''a'' [] loading)]) = None
   \<and> get ''constructor'' (storeOf [(''q1'', exValue ''a'' [] loading)]) = Builtin ''constructor''
   \<and> markQueryError allTruthy ''constructor'' ''timeout'' (Some ''q1'')
        (storeOf [(''q1'', exValue ''a'' [] loading)])
     = Inr (storeOf [(''q1'', (exValue ''a'' [] error)\<lparr>networkError := Some ''timeout''\<rparr>)])"
  by (simp add: eval_defs)

text \<open>
  Claim C7. \<^verbatim>\<open>reset\<close> returns normally, keeps the keys of the store, sets the status of
  every tracked id among \<^verbatim>\<open>observableQueryIds\<close> to \<^verbatim>\<open>loading\<close> with all other fields of
  the record kept, and leaves the record of every other tracked id, and what \<^verbatim>\<open>get\<close>
  gives for an untracked id, as it is.
\<close>

theorem C7_reset:
  "returns (reset activeIds st)
   \<and> map fst (own (state_of (reset activeIds st))) = map fst (own st)
   \<and> get k (state_of (reset activeIds st)) =
       (case get k st of
          Rec r \<Rightarrow> Rec (if k \<in> set activeIds then r\<lparr>networkStatus := loading\<rparr> else r)
        | _ \<Rightarrow> get k st)"
proof -
  have "returns (reset activeIds st)"
    by (simp add: reset_def)
  moreover have "map fst (own (state_of (reset activeIds st))) = map fst (own st)"
    by (simp add: reset_def keys_fold_map_entry)
  moreover have "get k (state_of (reset activeIds st)) =
       (case get k st of
          Rec r \<Rightarrow> Rec (if k \<in> set activeIds then r\<lparr>networkStatus := loading\<rparr> else r)
        | _ \<Rightarrow> get k st)"
  proof (cases "ownRecord k st")
    case None
    then have "ownRecord k (state_of (reset activeIds st)) = None"
      by (simp add: reset_ownRecord)
    then show ?thesis using None
      by (simp add: get_def lookup_def reset_inherited split: jsvalue.split)
  next
    case (Some r)
    then have "ownRecord k (state_of (reset activeIds st))
        = Some (if k \<in> set activeIds then r\<lparr>networkStatus := loading\<rparr> else r)"
      by (simp add: reset_ownRecord)
    then show ?thesis using Some
      by (simp add: get_def lookup_def)
  qed
  ultimately show ?thesis by simp
qed

theorem C7_reset_witness:
  "reset [''A''] (storeOf [(''A'', exValue ''a'' [] ready), (''B'', exValue ''b'' [] error)])
     = Inr (storeOf [(''A'', exValue ''a'' [] loading), (''B'', exValue ''b'' [] error)])
   \<and> get ''B'' (state_of
       (reset [''A''] (storeOf [(''A'', exValue ''a'' [] ready), (''B'', exValue ''b'' [] error)])))
     = Rec (exValue ''b'' [] error)"
  using C7_reset [of "[''A'']"
      "storeOf [(''A'', exValue ''a'' [] ready), (''B'', exValue ''b'' [] error)]" "''B''"]
  by (simp add: eval_defs)

text \<open>
  Claim C8, amended. After any sequence of calls from the empty store that ends with
  \<^verbatim>\<open>stopQuery\<close> of an id, \<^verbatim>\<open>get\<close> of that id is \<^verbatim>\<open>undefined\<close>, provided the id is
  neither a property name of \<^verbatim>\<open>Object.prototype\<close> nor one of the four field names the
  methods assign (a call on \<^verbatim>\<open>__proto__\<close> adds these to \<^verbatim>\<open>Object.prototype\<close>). In any
  store, \<^verbatim>\<open>get\<close> of an id after its \<^verbatim>\<open>stopQuery\<close> is what the store inherits under that
  name. \<^verbatim>\<open>stopQuery\<close> always returns normally, stopping twice is stopping once, and
  stopping an id without a record returns the store as it is. The claim as stated, for
  every id, fails for the inherited names.
\<close>

theorem C8_stopQuery:
  "(queryId \<notin> set objectPrototypeNames \<and> queryId \<notin> set assignedFieldNames \<longrightarrow>
      get queryId (run T isEqual hasError (cs @ [StopQuery queryId]) emptyStore) = Undefined)
   \<and> get queryId (state_of (stopQuery queryId st)) = inherited queryId st
   \<and> (queryId \<notin> set objectPrototypeNames \<and> queryId \<notin> fst ` set (added st) \<longrightarrow>
      get queryId (state_of (stopQuery queryId st)) = Undefined)
   \<and> returns (stopQuery queryId st)
   \<and> stopQuery queryId (state_of (stopQuery queryId st)) = stopQuery queryId st
   \<and> ((\<forall>r. get queryId st \<noteq> Rec r) \<longrightarrow> stopQuery queryId st = Inr st)"
proof -
  have g: "get queryId (state_of (stopQuery queryId s)) = inherited queryId s" for s
    by (simp add: get_def lookup_def stopQuery_ownRecord stopQuery_inherited)
  have u: "queryId \<notin> set objectPrototypeNames \<and> queryId \<notin> fst ` set (added s)
      \<longrightarrow> inherited queryId s = Undefined" for s
    by (auto simp: inherited_def split: option.splits dest!: map_of_SomeD intro: rev_image_eqI)
  have a: "queryId \<notin> set objectPrototypeNames \<and> queryId \<notin> set assignedFieldNames \<longrightarrow>
      get queryId (run T isEqual hasError (cs @ [StopQuery queryId]) emptyStore) = Undefined"
  proof
    assume h: "queryId \<notin> set objectPrototypeNames \<and> queryId \<notin> set assignedFieldNames"
    have "fst ` set (added (run T isEqual hasError cs emptyStore)) \<subseteq> set assignedFieldNames"
      by (rule run_added_keys) (simp_all add: emptyStore_def)
    then have "queryId \<notin> fst ` set (added (run T isEqual hasError cs emptyStore))"
      using h by blast
    then have "inherited queryId (run T isEqual hasError cs emptyStore) = Undefined"
      using h u by blast
    then show "get queryId (run T isEqual hasError (cs @ [StopQuery queryId]) emptyStore)
        = Undefined"
      by (simp add: run_append g)
  qed
  have b: "get queryId (state_of (stopQuery queryId st)) = inherited queryId st"
    by (rule g)
  have c: "queryId \<notin> set objectPrototypeNames \<and> queryId \<notin> fst ` set (added st) \<longrightarrow>
      get queryId (state_of (stopQuery queryId st)) = Undefined"
    using u [of st] by (simp add: g)
  have d: "returns (stopQuery queryId st)"
    by (simp add: stopQuery_def)
  have e: "stopQuery queryId (state_of (stopQuery queryId st)) = stopQuery queryId st"
    by (simp add: stopQuery_def delete_idem)
  have f: "(\<forall>r. get queryId st \<noteq> Rec r) \<longrightarrow> stopQuery queryId st = Inr st"
  proof
    assume "\<forall>r. get queryId st \<noteq> Rec r"
    then have "ownRecord queryId st = None"
      by (cases "ownRecord queryId st") (auto simp: get_Rec_iff)
    then have "queryId \<notin> fst ` set (own st)"
      by (simp add: ownRecord_None_iff)
    then show "stopQuery queryId st = Inr st"
      by (simp add: stopQuery_def)
  qed
  from a b c d e f show ?thesis by blast
qed

theorem C8_stopQuery_witness:
  "get ''q1'' (run allTruthy isEqualEx hasErrorsEx
        [InitQuery ''q1'' ''a'' () False [] False False () None :: exCall, StopQuery ''q1'']
        emptyStore) = Undefined
   \<and> stopQuery ''q2'' (storeOf [(''q1'', exValue ''a'' [] ready)])
       = Inr (storeOf [(''q1'', exValue ''a'' [] ready)])"
proof -
  have n: "''q1'' \<notin> set objectPrototypeNames \<and> ''q1'' \<notin> set assignedFieldNames"
    by (simp add: objectPrototypeNames_def assignedFieldNames_def)
  have u: "\<forall>r. get ''q2'' (storeOf [(''q1'', exValue ''a'' [] ready)]) \<noteq> Rec r"
    by (simp add: eval_defs)
  show ?thesis
    using n u
      C8_stopQuery [of "''q1''" allTruthy isEqualEx hasErrorsEx
        "[InitQuery ''q1'' ''a'' () False [] False False () None :: exCall]"
        "storeOf [(''q1'', exValue ''a'' [] ready)]"]
      C8_stopQuery [of "''q2''" allTruthy isEqualEx hasErrorsEx "[] :: exCall list"
        "storeOf [(''q1'', exValue ''a'' [] ready)]"]
    by simp
qed

theorem C8_counterexample:
  "get ''constructor'' (state_of (stopQuery ''constructor'' (emptyStore :: exStore)))
     = Builtin ''constructor''
   \<and> get ''networkStatus'' (run allTruthy isEqualEx hasErrorsEx
        [MarkQueryResultClient ''__proto__'' True :: exCall, StopQuery ''networkStatus'']
        emptyStore) = Added (JStatus ready)"
  by (simp add: eval_defs)

text \<open>
  Claim C9. If, after a sequence of calls from the empty store, the record of an id has
  status \<^verbatim>\<open>fetchMore\<close>, then the sequence holds an \<^verbatim>\<open>initQuery\<close> whose
  \<^verbatim>\<open>fetchMoreForQueryId\<close> is that id. The status \<^verbatim>\<open>initQuery\<close> chooses for the record it
  writes is never \<^verbatim>\<open>fetchMore\<close>: after a call that does not raise the consistency error
  and is not linked to its own id, the record of the id has another status.
\<close>

theorem C9_fetchMore_only_linked:
  "(get k (run T isEqual hasError cs emptyStore) = Rec r \<and> networkStatus r = fetchMore
      \<longrightarrow> (\<exists>c\<in>set cs. linksTo k c))
   \<and> newNetworkStatus isSetVariables isPoll isRefetch \<noteq> fetchMore
   \<and> (\<not> raises InternalError (initQuery T isEqual queryId q d spv v isPoll isRefetch m fm st)
        \<and> fm \<noteq> Some queryId
      \<longrightarrow> (\<exists>r'. get queryId
                  (state_of (initQuery T isEqual queryId q d spv v isPoll isRefetch m fm st))
                = Rec r' \<and> networkStatus r' \<noteq> fetchMore))"
proof -
  have a: "get k (run T isEqual hasError cs emptyStore) = Rec r \<and> networkStatus r = fetchMore
      \<longrightarrow> (\<exists>c\<in>set cs. linksTo k c)"
  proof
    assume h: "get k (run T isEqual hasError cs emptyStore) = Rec r
      \<and> networkStatus r = fetchMore"
    then show "\<exists>c\<in>set cs. linksTo k c"
      using run_fetchMore [of k T isEqual hasError cs emptyStore r]
      by (simp add: get_Rec_iff) (simp add: ownRecord_def emptyStore_def)
  qed
  have b: "newNetworkStatus isSetVariables isPoll isRefetch \<noteq> fetchMore"
    by simp
  have c: "\<not> raises InternalError (initQuery T isEqual queryId q d spv v isPoll isRefetch m fm st)
        \<and> fm \<noteq> Some queryId
      \<longrightarrow> (\<exists>r'. get queryId
                  (state_of (initQuery T isEqual queryId q d spv v isPoll isRefetch m fm st))
                = Rec r' \<and> networkStatus r' \<noteq> fetchMore)"
    by (simp add: get_Rec_iff initQuery_ownRecord_self)
  from a b c show ?thesis by blast
qed

theorem C9_fetchMore_only_linked_witness:
  "run allTruthy isEqualEx hasErrorsEx
      [InitQuery ''q1'' ''base'' () False [] False False () None,
       MarkQueryResult ''q1'' (exResult None) None,
       InitQuery ''q2'' ''more'' () False [] False False () (Some ''q1'') :: exCall] emptyStore
     = storeOf [(''q1'', exValue ''base'' [] fetchMore), (''q2'', exValue ''more'' [] loading)]
   \<and> (\<exists>c \<in> set [InitQuery ''q1'' ''base'' () False [] False False () None,
       MarkQueryResult ''q1'' (exResult None) None,
       InitQuery ''q2'' ''more'' () False [] False False () (Some ''q1'') :: exCall].
        linksTo ''q1'' c)
   \<and> initQuery allTruthy isEqualEx ''q2'' ''more'' () False [] True True () (Some ''q1'')
        (storeOf [(''q1'', exValue ''base'' [] ready)])
     = Inr (storeOf [(''q1'', exValue ''base'' [] fetchMore), (''q2'', exValue ''more'' [] poll)])"
proof -
  have e: "run allTruthy isEqualEx hasErrorsEx
      [InitQuery ''q1'' ''base'' () False [] False False () None,
       MarkQueryResult ''q1'' (exResult None) None,
       InitQuery ''q2'' ''more'' () False [] False False () (Some ''q1'') :: exCall] emptyStore
     = storeOf [(''q1'', exValue ''base'' [] fetchMore), (''q2'', exValue ''more'' [] loading)]"
    by (simp add: eval_defs)
  have g: "get ''q1''
      (storeOf [(''q1'', exValue ''base'' [] fetchMore), (''q2'', exValue ''more'' [] loading)])
             = Rec (exValue ''base'' [] fetchMore)"
    by (simp add: eval_defs)
  have n: "networkStatus (exValue ''base'' [] fetchMore) = fetchMore"
    by (simp add: exValue_def)
  have h: "\<not> raises InternalError
      (initQuery allTruthy isEqualEx ''q2'' ''more'' () False [] True True () (Some ''q1'')
         (storeOf [(''q1'', exValue ''base'' [] ready)]))"
    by (simp add: eval_defs)
  have p: "initQuery allTruthy isEqualEx ''q2'' ''more'' () False [] True True () (Some ''q1'')
        (storeOf [(''q1'', exValue ''base'' [] ready)])
     = Inr (storeOf [(''q1'', exValue ''base'' [] fetchMore), (''q2'', exValue ''more'' [] poll)])"
    by (simp add: eval_defs)
  show ?thesis
    using C9_fetchMore_only_linked [of "''q1''" allTruthy isEqualEx hasErrorsEx
      "[InitQuery ''q1'' ''base'' () False [] False False () None,
        MarkQueryResult ''q1'' (exResult None) None,
        InitQuery ''q2'' ''more'' () False [] False False () (Some ''q1'') :: exCall]"
      "exValue ''base'' [] fetchMore" False True True "''q2''" "''more''" "()" False "[]" "()"
      "Some ''q1''" "storeOf [(''q1'', exValue ''base'' [] ready)]"] e g n h p
    by simp
qed

text \<open>
  Claim C10, amended. A call of \<^verbatim>\<open>initQuery\<close> that does not raise the consistency error
  throws the \<^verbatim>\<open>TypeError\<close> exactly when \<^verbatim>\<open>fetchMoreForQueryId\<close> is given, is not the id
  being initialized and \<^verbatim>\<open>this.store[fetchMoreForQueryId]\<close> is not an object, and returns
  normally otherwise. \<^verbatim>\<open>markQueryResult\<close> and \<^verbatim>\<open>markQueryError\<close> on a tracked id throw
  the \<^verbatim>\<open>TypeError\<close> exactly when \<^verbatim>\<open>fetchMoreForQueryId\<close> is given and
  \<^verbatim>\<open>this.store[fetchMoreForQueryId]\<close> is not an object, and return normally otherwise.
  The read is not an object when it is \<^verbatim>\<open>undefined\<close>, as for an id that has no record and
  is not inherited; it is an object for a tracked id and for a property name of
  \<^verbatim>\<open>Object.prototype\<close>. The claim as stated fails for \<^verbatim>\<open>initQuery\<close> linked to its own, so
  far untracked, id (it returns normally) or called with a different query string (it
  throws the consistency error instead), and for a linked id that is an inherited name
  (the assignment lands on the built-in and the call returns normally).
\<close>

theorem C10_linked_absent:
  "(\<not> raises InternalError (initQuery T isEqual queryId q d spv v isPoll isRefetch m fm st) \<longrightarrow>
      raises TypeError (initQuery T isEqual queryId q d spv v isPoll isRefetch m fm st)
        = (\<exists>l. fm = Some l \<and> l \<noteq> queryId \<and> \<not> isObject (get l st))
      \<and> returns (initQuery T isEqual queryId q d spv v isPoll isRefetch m fm st)
        = (\<not> (\<exists>l. fm = Some l \<and> l \<noteq> queryId \<and> \<not> isObject (get l st))))
   \<and> (get queryId st = Rec r \<longrightarrow>
      raises TypeError (markQueryResult T hasError queryId result fm st)
        = (\<exists>l. fm = Some l \<and> \<not> isObject (get l st))
      \<and> returns (markQueryResult T hasError queryId result fm st)
        = (\<not> (\<exists>l. fm = Some l \<and> \<not> isObject (get l st))))
   \<and> (get queryId st = Rec r \<longrightarrow>
      raises TypeError (markQueryError T queryId e fm st)
        = (\<exists>l. fm = Some l \<and> \<not> isObject (get l st))
      \<and> returns (markQueryError T queryId e fm st)
        = (\<not> (\<exists>l. fm = Some l \<and> \<not> isObject (get l st))))
   \<and> (get l st = Undefined \<longrightarrow> \<not> isObject (get l st))
   \<and> (get l st = Rec rl \<or> get l st = Builtin l \<longrightarrow> isObject (get l st))"
proof -
  have a: "\<not> raises InternalError (initQuery T isEqual queryId q d spv v isPoll isRefetch m fm st) \<longrightarrow>
      raises TypeError (initQuery T isEqual queryId q d spv v isPoll isRefetch m fm st)
        = (\<exists>l. fm = Some l \<and> l \<noteq> queryId \<and> \<not> isObject (get l st))
      \<and> returns (initQuery T isEqual queryId q d spv v isPoll isRefetch m fm st)
        = (\<not> (\<exists>l. fm = Some l \<and> l \<noteq> queryId \<and> \<not> isObject (get l st)))"
    using initQuery_raises_TypeError [of T isEqual queryId q d spv v isPoll isRefetch m fm st]
      initQuery_returns [of T isEqual queryId q d spv v isPoll isRefetch m fm st]
    unfolding get_def by blast
  have b: "get queryId st = Rec r \<longrightarrow>
      raises TypeError (markQueryResult T hasError queryId result fm st)
        = (\<exists>l. fm = Some l \<and> \<not> isObject (get l st))
      \<and> returns (markQueryResult T hasError queryId result fm st)
        = (\<not> (\<exists>l. fm = Some l \<and> \<not> isObject (get l st)))"
    by (auto simp: get_Rec_iff markQueryResult_raises markQueryResult_returns)
       (auto simp: get_def)
  have c: "get queryId st = Rec r \<longrightarrow>
      raises TypeError (markQueryError T queryId e fm st)
        = (\<exists>l. fm = Some l \<and> \<not> isObject (get l st))
      \<and> returns (markQueryError T queryId e fm st)
        = (\<not> (\<exists>l. fm = Some l \<and> \<not> isObject (get l st)))"
    by (auto simp: get_Rec_iff markQueryError_raises markQueryError_returns)
       (auto simp: get_def)
  have d: "get l st = Undefined \<longrightarrow> \<not> isObject (get l st)"
    by simp
  have e: "get l st = Rec rl \<or> get l st = Builtin l \<longrightarrow> isObject (get l st)"
    by auto
  from a b c d e show ?thesis by blast
qed

theorem C10_linked_absent_witness:
  "initQuery allTruthy isEqualEx ''q2'' ''more'' () False [] False False () (Some ''q9'')
      (storeOf [(''q1'', exValue ''base'' [] ready)])
    = Inl (TypeError,
        storeOf [(''q1'', exValue ''base'' [] ready), (''q2'', exValue ''more'' [] loading)])
   \<and> markQueryResult allTruthy hasErrorsEx ''q1'' (exResult None) (Some ''q9'')
      (storeOf [(''q1'', exValue ''base'' [] loading)])
    = Inl (TypeError, storeOf [(''q1'', exValue ''base'' [] ready)])
   \<and> markQueryError allTruthy ''q1'' ''timeout'' (Some ''q9'')
      (storeOf [(''q1'', exValue ''base'' [] loading)])
    = Inl (TypeError,
        storeOf [(''q1'', (exValue ''base'' [] error)\<lparr>networkError := Some ''timeout''\<rparr>)])"
proof -
  have h1: "\<not> raises InternalError
      (initQuery allTruthy isEqualEx ''q2'' ''more'' () False [] False False () (Some ''q9'')
         (storeOf [(''q1'', exValue ''base'' [] ready)]))"
    by (simp add: eval_defs)
  have h2: "get ''q1'' (storeOf [(''q1'', exValue ''base'' [] loading)])
      = Rec (exValue ''base'' [] loading)"
    by (simp add: eval_defs)
  have u1: "get ''q9'' (storeOf [(''q1'', exValue ''base'' [] ready)]) = Undefined"
    by (simp add: eval_defs)
  have u2: "get ''q9'' (storeOf [(''q1'', exValue ''base'' [] loading)]) = Undefined"
    by (simp add: eval_defs)
  have "raises TypeError
      (initQuery allTruthy isEqualEx ''q2'' ''more'' () False [] False False () (Some ''q9'')
         (storeOf [(''q1'', exValue ''base'' [] ready)]))
    \<and> raises TypeError
      (markQueryResult allTruthy hasErrorsEx ''q1'' (exResult None) (Some ''q9'')
         (storeOf [(''q1'', exValue ''base'' [] loading)]))
    \<and> raises TypeError
      (markQueryError allTruthy ''q1'' ''timeout'' (Some ''q9'')
         (storeOf [(''q1'', exValue ''base'' [] loading)]))"
    using h1 h2 u1 u2
      C10_linked_absent [of allTruthy isEqualEx "''q2''" "''more''" "()" False "[]" False False
        "()" "Some ''q9''" "storeOf [(''q1'', exValue ''base'' [] ready)]"
        "exValue ''base'' [] ready" hasErrorsEx "exResult None" "''timeout''"]
      C10_linked_absent [of allTruthy isEqualEx "''q1''" "''base''" "()" False "[]" False False
        "()" "Some ''q9''" "storeOf [(''q1'', exValue ''base'' [] loading)]"
        "exValue ''base'' [] loading" hasErrorsEx "exResult None" "''timeout''"]
    by simp
  then show ?thesis
    by (simp add: eval_defs)
qed

theorem C10_counterexample:
  "get ''q1'' (emptyStore :: exStore) = Undefined
   \<and> initQuery allTruthy isEqualEx ''q1'' ''query'' () False [] False False () (Some ''q1'')
       emptyStore
     = Inr (storeOf [(''q1'', exValue ''query'' [] fetchMore)])
   \<and> get ''q9'' (storeOf [(''q1'', exValue ''query A'' [] ready)]) = Undefined
   \<and> initQuery allTruthy isEqualEx ''q1'' ''query B'' () False [] False False () (Some ''q9'')
       (storeOf [(''q1'', exValue ''query A'' [] ready)])
     = Inl (InternalError, storeOf [(''q1'', exValue ''query A'' [] ready)])
   \<and> ownRecord ''valueOf'' (storeOf [(''q1'', exValue ''base'' [] loading)]) = None
   \<and> markQueryResult allTruthy hasErrorsEx ''q1'' (exResult None) (Some ''valueOf'')
       (storeOf [(''q1'', exValue ''base'' [] loading)])
     = Inr (storeOf [(''q1'', exValue ''base'' [] ready)])"
  by (simp add: eval_defs)

end
